theory Spec2Isabelle
  imports Complex_Main "HOL-Library.Multiset"
begin

section \<open>Numbers and errors\<close>

text \<open>
  Python floats are modelled as real numbers: \<open>+\<close>, \<open>-\<close>, \<open>*\<close>, \<open>/\<close>, \<open>sqrt\<close> and the
  comparisons are those of \<open>real\<close>. Rounding is not modelled, and neither are the
  infinities and NaN that float operations produce without raising. The literals
  \<open>1e-6\<close>, \<open>1e-3\<close>, \<open>0.1\<close> and \<open>0.8\<close> are the rationals they denote.

  A raised exception is a value \<open>Inl e\<close>. A division is \<open>py_div\<close>, which raises on a zero
  divisor as Python's float division does; the divisions whose dividend is a numpy float,
  which would yield \<open>inf\<close> or \<open>nan\<close> instead of raising, are modelled the same way, and
  the lemmas below show that no divisor of the detector is zero.

  The power \<open>v ** 2\<close> of a finite Python float raises \<open>OverflowError\<close> when the square
  is too large for a double, that is, when it rounds to an infinity: from
  \<open>2^1024 - 2^970\<close> upwards. A value \<open>v\<close> that is itself that large stands for an
  infinity, whose power is an infinity and does not raise. The same power of a numpy
  float does not raise.
\<close>

datatype error = ValueError | IndexError | ZeroDivisionError | OverflowError

definition py_div :: "real \<Rightarrow> real \<Rightarrow> error + real" where
  "py_div a b = (if b = 0 then Inl ZeroDivisionError else Inr (a / b))"

definition bind_err :: "error + 'a \<Rightarrow> ('a \<Rightarrow> error + 'b) \<Rightarrow> error + 'b" where
  "bind_err m k = (case m of Inl e \<Rightarrow> Inl e | Inr v \<Rightarrow> k v)"

definition overflow_threshold :: real where
  "overflow_threshold = 2 ^ 1024 - 2 ^ 970"

datatype float_kind = PyFloat | NpFloat

definition float_square :: "float_kind \<Rightarrow> real \<Rightarrow> error + real" where
  "float_square k v =
     (if k = PyFloat \<and> \<bar>v\<bar> < overflow_threshold \<and> overflow_threshold \<le> v\<^sup>2
      then Inl OverflowError else Inr (v\<^sup>2))"

section \<open>flight\_plan.py\<close>

text \<open>The coordinates and the time of a \<open>Waypoint\<close> are Python floats.\<close>

record waypoint =
  wp_x :: real
  wp_y :: real
  wp_z :: real
  wp_time :: real

type_synonym position = "real \<times> real \<times> real"

text \<open>\<open>Waypoint.distance_to\<close>; the three squares are evaluated from left to right.\<close>

definition distance_to :: "waypoint \<Rightarrow> waypoint \<Rightarrow> error + real" where
  "distance_to a b =
     bind_err (float_square PyFloat (wp_x a - wp_x b)) (\<lambda>sx.
     bind_err (float_square PyFloat (wp_y a - wp_y b)) (\<lambda>sy.
     bind_err (float_square PyFloat (wp_z a - wp_z b)) (\<lambda>sz.
       Inr (sqrt (sx + sy + sz)))))"

text \<open>
  \<open>FlightPlan\<close>. The field \<open>start_time\<close> (a datetime, informational) is a real number
  of seconds.
\<close>

record flight_plan =
  uav_id :: string
  waypoints :: "waypoint list"
  speed :: real
  start_time :: real
  priority :: int

text \<open>\<open>FlightPlan.__post_init__\<close>: the validation every constructed plan has passed.\<close>

definition post_init :: "flight_plan \<Rightarrow> error + flight_plan" where
  "post_init f =
     (if length (waypoints f) < 2 then Inl ValueError
      else if speed f \<le> 0 then Inl ValueError
      else if priority f < 1 then Inl ValueError
      else Inr f)"

text \<open>
  The three assignments \<open>x = wp1.x + ratio * (wp2.x - wp1.x)\<close>, and the same for \<open>y\<close> and
  \<open>z\<close>, of \<open>interpolate_position\<close>.
\<close>

definition blend :: "waypoint \<Rightarrow> waypoint \<Rightarrow> real \<Rightarrow> position" where
  "blend wp1 wp2 ratio =
     (wp_x wp1 + ratio * (wp_x wp2 - wp_x wp1),
      wp_y wp1 + ratio * (wp_y wp2 - wp_y wp1),
      wp_z wp1 + ratio * (wp_z wp2 - wp_z wp1))"

text \<open>
  A returned position comes with its origin: \<open>Stored\<close> when the zero-duration branch
  returned the coordinates of a waypoint as they are stored, \<open>Blended\<close> when they were
  computed from the ratio. A blended coordinate has the float type of the query time.
\<close>

datatype origin = Stored | Blended

type_synonym reading = "position \<times> origin"

text \<open>
  The segment loop of \<open>interpolate_position\<close>, \<open>for i in range(len(waypoints) - 1)\<close>, on
  the remaining suffix of the waypoint list; falling out of the loop is the trailing
  \<open>return None\<close>.
\<close>

fun segment_loop :: "waypoint list \<Rightarrow> real \<Rightarrow> error + reading option" where
  "segment_loop (wp1 # wp2 # rest) t =
     (if wp_time wp1 \<le> t \<and> t \<le> wp_time wp2 then
        (if wp_time wp2 = wp_time wp1 then
           Inr (Some ((wp_x wp1, wp_y wp1, wp_z wp1), Stored))
         else bind_err (py_div (t - wp_time wp1) (wp_time wp2 - wp_time wp1)) (\<lambda>ratio.
                Inr (Some (blend wp1 wp2 ratio, Blended))))
      else segment_loop (wp2 # rest) t)"
| "segment_loop ws t = Inr None"

text \<open>\<open>FlightPlan.interpolate_position\<close>; \<open>waypoints[0]\<close> of an empty list raises.\<close>

definition interpolate_position :: "flight_plan \<Rightarrow> real \<Rightarrow> error + reading option" where
  "interpolate_position f t =
     (case waypoints f of
        [] \<Rightarrow> Inl IndexError
      | w0 # ws \<Rightarrow>
          if t < wp_time w0 \<or> t > wp_time (last (w0 # ws)) then Inr None
          else segment_loop (w0 # ws) t)"

definition position_of :: "waypoint \<Rightarrow> position" where
  "position_of w = (wp_x w, wp_y w, wp_z w)"

text \<open>The property \<open>FlightPlan.duration\<close>.\<close>

definition duration :: "flight_plan \<Rightarrow> real" where
  "duration f =
     (if waypoints f = [] then 0
      else wp_time (last (waypoints f)) - wp_time (hd (waypoints f)))"

section \<open>conflict\_detector.py\<close>

record conflict =
  uav1_id :: string
  uav2_id :: string
  time :: real
  position1 :: position
  position2 :: position
  distance :: real
  severity :: real

record conflict_detector =
  safety_distance :: real
  time_step :: real
  time_window :: real
  vertical_weight :: real

text \<open>\<open>ConflictDetector.__init__\<close> with its defaults given explicitly by the caller.\<close>

definition new_detector :: "real \<Rightarrow> real \<Rightarrow> real \<Rightarrow> real \<Rightarrow> conflict_detector" where
  "new_detector sd ts tw vw =
     \<lparr>safety_distance = sd, time_step = ts, time_window = tw, vertical_weight = vw\<rparr>"

text \<open>
  The vertically weighted distance, computed inline in \<open>_check_pair\<close> and in
  \<open>check_continuous_conflict\<close> by the same expression. The sample times of both are
  elements of a numpy array, so a blended coordinate is a numpy float; the differences
  \<open>dx\<close>, \<open>dy\<close>, \<open>dz\<close> are Python floats only when both positions are stored ones, and
  only then can a square raise.
\<close>

definition sample_distance :: "conflict_detector \<Rightarrow> reading \<Rightarrow> reading \<Rightarrow> error + real" where
  "sample_distance d pos1 pos2 =
     (let k = (if snd pos1 = Stored \<and> snd pos2 = Stored then PyFloat else NpFloat);
          dx = fst (fst pos1) - fst (fst pos2);
          dy = fst (snd (fst pos1)) - fst (snd (fst pos2));
          dz = (snd (snd (fst pos1)) - snd (snd (fst pos2))) * vertical_weight d
      in bind_err (float_square k dx) (\<lambda>sx.
         bind_err (float_square k dy) (\<lambda>sy.
         bind_err (float_square k dz) (\<lambda>sz.
           Inr (sqrt (sx + sy + sz))))))"

text \<open>The loop of \<open>_calculate_max_segment_speed\<close> over consecutive waypoints.\<close>

fun speed_loop :: "waypoint list \<Rightarrow> real \<Rightarrow> error + real" where
  "speed_loop (wp1 # wp2 # rest) max_speed =
     (let dt = wp_time wp2 - wp_time wp1 in
      if dt \<le> 0 then speed_loop (wp2 # rest) max_speed
      else bind_err (distance_to wp1 wp2) (\<lambda>dist.
           bind_err (py_div dist dt) (\<lambda>segment_speed.
             if segment_speed > max_speed then speed_loop (wp2 # rest) segment_speed
             else speed_loop (wp2 # rest) max_speed)))"
| "speed_loop ws max_speed = Inr max_speed"

definition calculate_max_segment_speed :: "conflict_detector \<Rightarrow> flight_plan \<Rightarrow> error + real" where
  "calculate_max_segment_speed d flight = speed_loop (waypoints flight) (max (speed flight) 0)"

definition get_effective_time_step ::
  "conflict_detector \<Rightarrow> flight_plan \<Rightarrow> flight_plan \<Rightarrow> error + real" where
  "get_effective_time_step d flight1 flight2 =
     (let base_step = max (time_step d) (1 / 1000) in
      bind_err (calculate_max_segment_speed d flight1) (\<lambda>speed1.
      bind_err (calculate_max_segment_speed d flight2) (\<lambda>speed2.
        let relative_speed = speed1 + speed2 in
        if relative_speed \<le> 1 / 1000000 then Inr base_step
        else bind_err (py_div (safety_distance d) (relative_speed * 4)) (\<lambda>desired_step.
               let min_step = base_step * (1 / 10) in
               Inr (min base_step (max desired_step min_step))))))"

text \<open>
  \<open>numpy.linspace(start, stop, num)\<close>: \<open>num\<close> evenly spaced values from \<open>start\<close>, the
  last one set to \<open>stop\<close>.
\<close>

definition linspace :: "real \<Rightarrow> real \<Rightarrow> nat \<Rightarrow> real list" where
  "linspace start stop num =
     (if num = 0 then []
      else if num = 1 then [start]
      else map (\<lambda>i. start + real i * ((stop - start) / real (num - 1))) [0..<num - 1] @ [stop])"

text \<open>The sample times of \<open>_check_pair\<close> on the window \<open>[t_start, t_end]\<close>.\<close>

definition sample_times ::
  "conflict_detector \<Rightarrow> flight_plan \<Rightarrow> flight_plan \<Rightarrow> real \<Rightarrow> real \<Rightarrow> error + real list" where
  "sample_times d flight1 flight2 t_start t_end =
     (if \<bar>t_start - t_end\<bar> \<le> 1 / 1000000 then Inr [t_start]
      else bind_err (get_effective_time_step d flight1 flight2) (\<lambda>step.
             let duration = max (t_end - t_start) step in
             bind_err (py_div duration step) (\<lambda>q.
               let sample_count = max (\<lceil>q\<rceil> + 1) 2 in
               Inr (linspace t_start t_end (nat sample_count)))))"

text \<open>
  The sampling loop of \<open>_check_pair\<close>. The tracked state is \<open>None\<close> while
  \<open>min_distance\<close> is \<open>inf\<close> and \<open>conflict_time\<close> is \<open>None\<close>, and
  \<open>Some (min_distance, conflict_time, pos1_at_conflict, pos2_at_conflict)\<close> afterwards.
\<close>

type_synonym closest = "(real \<times> real \<times> position \<times> position) option"

fun sample_loop ::
  "conflict_detector \<Rightarrow> flight_plan \<Rightarrow> flight_plan \<Rightarrow> real list \<Rightarrow> closest \<Rightarrow> error + closest" where
  "sample_loop d flight1 flight2 [] best = Inr best"
| "sample_loop d flight1 flight2 (t # ts) best =
     bind_err (interpolate_position flight1 t) (\<lambda>pos1.
     bind_err (interpolate_position flight2 t) (\<lambda>pos2.
       case (pos1, pos2) of
         (Some p1, Some p2) \<Rightarrow>
           bind_err (sample_distance d p1 p2) (\<lambda>dist.
             if (case best of None \<Rightarrow> True | Some (min_distance, _) \<Rightarrow> dist < min_distance)
             then sample_loop d flight1 flight2 ts (Some (dist, t, fst p1, fst p2))
             else sample_loop d flight1 flight2 ts best)
       | _ \<Rightarrow> sample_loop d flight1 flight2 ts best))"

text \<open>The two severity assignments of \<open>_check_pair\<close>.\<close>

definition severity_of :: "real \<Rightarrow> real \<Rightarrow> error + real" where
  "severity_of min_distance safety =
     bind_err (py_div min_distance safety) (\<lambda>q.
       let s = 1 - q in Inr (max 0 (min 1 s)))"

definition check_pair ::
  "conflict_detector \<Rightarrow> flight_plan \<Rightarrow> flight_plan \<Rightarrow> error + conflict list" where
  "check_pair d flight1 flight2 =
     (case waypoints flight1 of
        [] \<Rightarrow> Inl IndexError
      | a0 # as \<Rightarrow>
     (case waypoints flight2 of
        [] \<Rightarrow> Inl IndexError
      | b0 # bs \<Rightarrow>
        let t_start = max (wp_time a0) (wp_time b0);
            t_end = min (wp_time (last (a0 # as))) (wp_time (last (b0 # bs)))
        in
        if t_start > t_end \<and> t_start - t_end > 1 / 1000000 then Inr []
        else
          bind_err (sample_times d flight1 flight2 t_start t_end) (\<lambda>times.
          bind_err (sample_loop d flight1 flight2 times None) (\<lambda>best.
            case best of
              None \<Rightarrow> Inr []
            | Some (min_distance, conflict_time, pos1_at_conflict, pos2_at_conflict) \<Rightarrow>
                if min_distance < safety_distance d then
                  bind_err (severity_of min_distance (safety_distance d)) (\<lambda>sev.
                    Inr [\<lparr>uav1_id = uav_id flight1, uav2_id = uav_id flight2,
                          time = conflict_time,
                          position1 = pos1_at_conflict, position2 = pos2_at_conflict,
                          distance = min_distance, severity = sev\<rparr>])
                else Inr []))))"

text \<open>
  The nested loops of \<open>find_conflicts\<close>: \<open>inner_loop\<close> is \<open>for j in range(i + 1, n)\<close>
  for a fixed \<open>flights[i]\<close>, \<open>outer_loop\<close> is \<open>for i in range(n)\<close>. The sort is Python's
  stable sort on the key \<open>c.time\<close>.
\<close>

fun inner_loop :: "conflict_detector \<Rightarrow> flight_plan \<Rightarrow> flight_plan list \<Rightarrow> error + conflict list" where
  "inner_loop d fi [] = Inr []"
| "inner_loop d fi (fj # rest) =
     bind_err (check_pair d fi fj) (\<lambda>flight_conflicts.
     bind_err (inner_loop d fi rest) (\<lambda>more. Inr (flight_conflicts @ more)))"

fun outer_loop :: "conflict_detector \<Rightarrow> flight_plan list \<Rightarrow> error + conflict list" where
  "outer_loop d [] = Inr []"
| "outer_loop d (fi # rest) =
     bind_err (inner_loop d fi rest) (\<lambda>cs.
     bind_err (outer_loop d rest) (\<lambda>more. Inr (cs @ more)))"

definition find_conflicts :: "conflict_detector \<Rightarrow> flight_plan list \<Rightarrow> error + conflict list" where
  "find_conflicts d flights =
     bind_err (outer_loop d flights) (\<lambda>conflicts. Inr (sort_key time conflicts))"

text \<open>The loop of \<open>check_continuous_conflict\<close> over the sample times.\<close>

fun continuous_loop ::
  "conflict_detector \<Rightarrow> flight_plan \<Rightarrow> flight_plan \<Rightarrow> real list \<Rightarrow> error + bool" where
  "continuous_loop d flight1 flight2 [] = Inr True"
| "continuous_loop d flight1 flight2 (t # ts) =
     bind_err (interpolate_position flight1 t) (\<lambda>pos1.
     bind_err (interpolate_position flight2 t) (\<lambda>pos2.
       case (pos1, pos2) of
         (Some p1, Some p2) \<Rightarrow>
           bind_err (sample_distance d p1 p2) (\<lambda>dist.
             if dist \<ge> safety_distance d then Inr False
             else continuous_loop d flight1 flight2 ts)
       | _ \<Rightarrow> Inr False))"

text \<open>
  \<open>check_continuous_conflict\<close>. Its sample times are \<open>numpy.arange(start_time, end_time,
  self.time_step)\<close>; \<open>numpy.arange\<close> is the parameter \<open>np_arange\<close>, which returns the
  array or raises.
\<close>

definition check_continuous_conflict ::
  "(real \<Rightarrow> real \<Rightarrow> real \<Rightarrow> error + real list) \<Rightarrow>
   conflict_detector \<Rightarrow> flight_plan \<Rightarrow> flight_plan \<Rightarrow> real \<Rightarrow> real \<Rightarrow> error + bool" where
  "check_continuous_conflict np_arange d flight1 flight2 start_t end_t =
     bind_err (np_arange start_t end_t (time_step d)) (\<lambda>times.
       continuous_loop d flight1 flight2 times)"

text \<open>
  \<open>get_statistics\<close> returns a dict, here the list of its items in the order of the
  dict literal; \<open>map_of\<close> looks a key up. \<open>numpy.mean\<close>, \<open>numpy.min\<close> and
  \<open>numpy.max\<close> are applied to non-empty lists only.
\<close>

datatype stat = IntStat int | FloatStat real

definition np_mean :: "real list \<Rightarrow> real" where
  "np_mean xs = sum_list xs / real (length xs)"

definition np_min :: "real list \<Rightarrow> real" where
  "np_min xs = fold min (tl xs) (hd xs)"

definition np_max :: "real list \<Rightarrow> real" where
  "np_max xs = fold max (tl xs) (hd xs)"

definition get_statistics :: "conflict list \<Rightarrow> (string \<times> stat) list" where
  "get_statistics conflicts =
     (if conflicts = [] then
        [(''total_conflicts'', IntStat 0),
         (''avg_distance'', FloatStat 0),
         (''min_distance'', FloatStat 0),
         (''avg_severity'', FloatStat 0),
         (''max_severity'', FloatStat 0)]
      else
        let distances = map distance conflicts;
            severities = map severity conflicts
        in
        [(''total_conflicts'', IntStat (int (length conflicts))),
         (''avg_distance'', FloatStat (np_mean distances)),
         (''min_distance'', FloatStat (np_min distances)),
         (''max_distance'', FloatStat (np_max distances)),
         (''avg_severity'', FloatStat (np_mean severities)),
         (''max_severity'', FloatStat (np_max severities)),
         (''critical_conflicts'', IntStat (int (length (filter (\<lambda>s. s > 4 / 5) severities))))])"

section \<open>verification\_service.py\<close>

record conflict_detail =
  location :: position
  detail_time :: real
  conflicting_flight :: string
  detail_distance :: real
  detail_severity :: real

record verification_result =
  status :: string
  primary_mission :: flight_plan
  conflicts :: "conflict list"
  conflict_details :: "conflict_detail list"

record mission_verification_service =
  simulated_schedules :: "flight_plan list"
  service_safety_distance :: real
  service_time_step :: real
  detector :: conflict_detector

text \<open>What \<open>print\<close> wrote, one value per printed line, without the formatting.\<close>

datatype printed =
    PrintVerifying string
  | PrintWaypoints nat
  | PrintDuration real
  | PrintChecking nat
  | PrintClear
  | PrintConflict nat

text \<open>
  \<open>MissionVerificationService.__init__\<close>; the detector gets the defaults
  \<open>time_window = 10.0\<close> and \<open>vertical_weight = 1.5\<close>.
\<close>

definition new_service :: "flight_plan list \<Rightarrow> real \<Rightarrow> real \<Rightarrow> mission_verification_service" where
  "new_service schedules sd ts =
     \<lparr>simulated_schedules = schedules, service_safety_distance = sd, service_time_step = ts,
      detector = new_detector sd ts 10 (3 / 2)\<rparr>"

text \<open>The loop of \<open>verify_mission\<close> over the simulated schedules, extending \<open>all_conflicts\<close>.\<close>

fun schedule_loop ::
  "conflict_detector \<Rightarrow> flight_plan \<Rightarrow> flight_plan list \<Rightarrow> conflict list \<Rightarrow> error + conflict list" where
  "schedule_loop d primary [] all_conflicts = Inr all_conflicts"
| "schedule_loop d primary (simulated_flight # rest) all_conflicts =
     bind_err (find_conflicts d [primary, simulated_flight]) (\<lambda>cs.
       let relevant_conflicts =
             filter (\<lambda>c. uav1_id c = uav_id primary \<or> uav2_id c = uav_id primary) cs
       in schedule_loop d primary rest (all_conflicts @ relevant_conflicts))"

definition detail_of :: "flight_plan \<Rightarrow> conflict \<Rightarrow> conflict_detail" where
  "detail_of primary c =
     (let conflicting_id = (if uav1_id c = uav_id primary then uav2_id c else uav1_id c);
          midpoint = ((fst (position1 c) + fst (position2 c)) / 2,
                      (fst (snd (position1 c)) + fst (snd (position2 c))) / 2,
                      (snd (snd (position1 c)) + snd (snd (position2 c))) / 2)
      in \<lparr>location = midpoint, detail_time = time c, conflicting_flight = conflicting_id,
          detail_distance = distance c, detail_severity = severity c\<rparr>)"

text \<open>
  \<open>verify_mission\<close> as a state transformer: it returns the outcome (the result or the
  exception raised), the service as the call leaves it, and the lines printed.
\<close>

definition verify_mission ::
  "mission_verification_service \<Rightarrow> flight_plan \<Rightarrow> bool \<Rightarrow>
     (error + verification_result) \<times> mission_verification_service \<times> printed list" where
  "verify_mission svc primary verbose =
     (let out1 = (if verbose then
                    [PrintVerifying (uav_id primary),
                     PrintWaypoints (length (waypoints primary)),
                     PrintDuration (duration primary),
                     PrintChecking (length (simulated_schedules svc))]
                  else [])
      in
      case schedule_loop (detector svc) primary (simulated_schedules svc) [] of
        Inl e \<Rightarrow> (Inl e, svc, out1)
      | Inr all_conflicts \<Rightarrow>
          let details = map (detail_of primary) all_conflicts;
              st = (if length all_conflicts = 0 then ''CLEAR'' else ''CONFLICT_DETECTED'');
              result = \<lparr>status = st, primary_mission = primary,
                        conflicts = all_conflicts, conflict_details = details\<rparr>;
              out2 = (if verbose then
                        (if status result = ''CLEAR'' then [PrintClear]
                         else [PrintConflict (length all_conflicts)])
                      else [])
          in (Inr result, svc, out1 @ out2))"

section \<open>Notions used by the properties\<close>

text \<open>The value of the weighted distance expression on two positions.\<close>

definition weighted_distance :: "conflict_detector \<Rightarrow> position \<Rightarrow> position \<Rightarrow> real" where
  "weighted_distance d pos1 pos2 =
     (let dx = fst pos1 - fst pos2;
          dy = fst (snd pos1) - fst (snd pos2);
          dz = (snd (snd pos1) - snd (snd pos2)) * vertical_weight d
      in sqrt (dx\<^sup>2 + dy\<^sup>2 + dz\<^sup>2))"

text \<open>
  What the body of the two sampling loops computes at a sample time \<open>u\<close>: the exception
  raised, \<open>None\<close> when a plan has no position there, or the distance and the positions.
\<close>

definition measure_at ::
  "conflict_detector \<Rightarrow> flight_plan \<Rightarrow> flight_plan \<Rightarrow> real
     \<Rightarrow> error + (real \<times> position \<times> position) option" where
  "measure_at d f1 f2 u =
     bind_err (interpolate_position f1 u) (\<lambda>pos1.
     bind_err (interpolate_position f2 u) (\<lambda>pos2.
       case (pos1, pos2) of
         (Some p1, Some p2) \<Rightarrow>
           bind_err (sample_distance d p1 p2) (\<lambda>dist. Inr (Some (dist, fst p1, fst p2)))
       | _ \<Rightarrow> Inr None))"

text \<open>
  The pairs \<open>(flights[i], flights[j])\<close> with \<open>i < j\<close>, in the order in which the nested
  loops of \<open>find_conflicts\<close> visit them.
\<close>

fun all_pairs :: "'a list \<Rightarrow> ('a \<times> 'a) list" where
  "all_pairs [] = []"
| "all_pairs (x # xs) = map (Pair x) xs @ all_pairs xs"

text \<open>A conflict with the two flights exchanged: identifiers and positions swap.\<close>

definition swap_conflict :: "conflict \<Rightarrow> conflict" where
  "swap_conflict c =
     \<lparr>uav1_id = uav2_id c, uav2_id = uav1_id c, time = time c,
      position1 = position2 c, position2 = position1 c,
      distance = distance c, severity = severity c\<rparr>"

definition swap_closest :: "closest \<Rightarrow> closest" where
  "swap_closest best = map_option (\<lambda>(m, t, p1, p2). (m, t, p2, p1)) best"

text \<open>The overlap window \<open>[t_start, t_end]\<close> of two plans with waypoints, as \<open>_check_pair\<close> computes it.\<close>

definition window_start :: "flight_plan \<Rightarrow> flight_plan \<Rightarrow> real" where
  "window_start f1 f2 = max (wp_time (hd (waypoints f1))) (wp_time (hd (waypoints f2)))"

definition window_end :: "flight_plan \<Rightarrow> flight_plan \<Rightarrow> real" where
  "window_end f1 f2 = min (wp_time (last (waypoints f1))) (wp_time (last (waypoints f2)))"

text \<open>
  \<open>pair_conflict d f1 f2 c\<close>: the conflict \<open>c\<close> names \<open>f1\<close> and \<open>f2\<close>; its time is one of
  the sample times of their overlap window; its distance and positions are those measured
  at that time; the distance is below the safety distance, and no sample of the window at
  which both plans fly has a smaller distance. The window is not empty, the samples lie in
  it, ascend and start at \<open>t_start\<close>; when the window is longer than \<open>1e-6\<close> there are at
  least two samples and the last one is \<open>t_end\<close>, otherwise \<open>t_start\<close> is the only sample.
\<close>

definition pair_conflict ::
  "conflict_detector \<Rightarrow> flight_plan \<Rightarrow> flight_plan \<Rightarrow> conflict \<Rightarrow> bool" where
  "pair_conflict d f1 f2 c =
     (case sample_times d f1 f2 (window_start f1 f2) (window_end f1 f2) of
        Inl e \<Rightarrow> False
      | Inr tms \<Rightarrow>
          uav1_id c = uav_id f1 \<and> uav2_id c = uav_id f2
          \<and> time c \<in> set tms
          \<and> measure_at d f1 f2 (time c) = Inr (Some (distance c, position1 c, position2 c))
          \<and> distance c = weighted_distance d (position1 c) (position2 c)
          \<and> distance c < safety_distance d
          \<and> list_all (\<lambda>u. case measure_at d f1 f2 u of
                             Inr (Some (m, _)) \<Rightarrow> distance c \<le> m
                           | _ \<Rightarrow> True) tms
          \<and> window_start f1 f2 \<le> window_end f1 f2
          \<and> hd tms = window_start f1 f2
          \<and> sorted tms
          \<and> list_all (\<lambda>u. window_start f1 f2 \<le> u \<and> u \<le> window_end f1 f2) tms
          \<and> (if window_end f1 f2 - window_start f1 f2 > 1 / 1000000
              then last tms = window_end f1 f2 \<and> 2 \<le> length tms
              else tms = [window_start f1 f2]))"

text \<open>
  \<open>below_at d f1 f2 t\<close>: at time \<open>t\<close> both plans have a position and the distance
  measured there is strictly below the safety distance.
\<close>

definition below_at :: "conflict_detector \<Rightarrow> flight_plan \<Rightarrow> flight_plan \<Rightarrow> real \<Rightarrow> bool" where
  "below_at d f1 f2 t =
     (case measure_at d f1 f2 t of
        Inr (Some (m, _)) \<Rightarrow> m < safety_distance d
      | _ \<Rightarrow> False)"



section \<open>Example inputs\<close>

definition make_waypoint :: "real \<Rightarrow> real \<Rightarrow> real \<Rightarrow> real \<Rightarrow> waypoint" where
  "make_waypoint x y z t = \<lparr>wp_x = x, wp_y = y, wp_z = z, wp_time = t\<rparr>"

definition make_plan :: "string \<Rightarrow> waypoint list \<Rightarrow> flight_plan" where
  "make_plan name ws =
     \<lparr>uav_id = name, waypoints = ws, speed = 15, start_time = 0, priority = 1\<rparr>"

text \<open>A plan whose last two waypoints share their time: a jump from (1,0,0) to (2,0,0).\<close>

definition plan_jump :: flight_plan where
  "plan_jump = make_plan ''UAV_001''
     [make_waypoint 0 0 0 0, make_waypoint 1 0 0 1, make_waypoint 2 0 0 1]"

text \<open>A plan with strictly increasing times.\<close>

definition plan_line :: flight_plan where
  "plan_line = make_plan ''UAV_002''
     [make_waypoint 0 0 0 0, make_waypoint 4 0 0 2, make_waypoint 4 6 0 4]"

text \<open>A plan that starts with a jump: two waypoints at time 0.\<close>

definition plan_hold :: flight_plan where
  "plan_hold = make_plan ''UAV_003''
     [make_waypoint 0 0 0 0, make_waypoint 5 5 5 0, make_waypoint 6 5 5 1]"

text \<open>
  Three stationary plans at the origin: \<open>plan_early\<close> flies in [0,1], \<open>plan_next\<close> in
  [1,2] and \<open>plan_late\<close> in [5,6]. The detector has the default configuration.
\<close>

definition plan_early :: flight_plan where
  "plan_early = make_plan ''UAV_A'' [make_waypoint 0 0 0 0, make_waypoint 0 0 0 1]"

definition plan_next :: flight_plan where
  "plan_next = make_plan ''UAV_B'' [make_waypoint 0 0 0 1, make_waypoint 0 0 0 2]"

definition plan_late :: flight_plan where
  "plan_late = make_plan ''UAV_C'' [make_waypoint 0 0 0 5, make_waypoint 0 0 0 6]"

definition default_detector :: conflict_detector where
  "default_detector = new_detector 10 1 10 (3 / 2)"

text \<open>The conflict of \<open>plan_early\<close> and \<open>plan_next\<close> at the instant 1 that their spans share.\<close>

definition conflict_at_handover :: conflict where
  "conflict_at_handover =
     \<lparr>uav1_id = ''UAV_A'', uav2_id = ''UAV_B'', time = 1,
      position1 = (0, 0, 0), position2 = (0, 0, 0), distance = 0, severity = 1\<rparr>"

text \<open>
  A plan that leaves the origin at time 0 and is at (1,0,0) at time 1, and a detector
  with safety distance 1 and time step 1.
\<close>

definition plan_away :: flight_plan where
  "plan_away = make_plan ''UAV_D'' [make_waypoint 0 0 0 0, make_waypoint 1 0 0 1]"

definition unit_detector :: conflict_detector where
  "unit_detector = new_detector 1 1 10 (3 / 2)"

text \<open>A second conflict, of distance 5 and severity 1/2.\<close>

definition conflict_near :: conflict where
  "conflict_near =
     \<lparr>uav1_id = ''UAV_A'', uav2_id = ''UAV_C'', time = 2,
      position1 = (0, 0, 0), position2 = (5, 0, 0), distance = 5, severity = 1 / 2\<rparr>"

text \<open>
  \<open>numpy.arange(start, stop, step)\<close> in exact arithmetic: the values \<open>start + i * step\<close>
  for \<open>i < ceil((stop - start) / step)\<close>; the length is a division by the step, so a zero
  step raises. It is what \<open>numpy.arange\<close> returns where its double arithmetic is exact,
  as for \<open>arange(0, 1, 1)\<close>.
\<close>

definition exact_arange :: "real \<Rightarrow> real \<Rightarrow> real \<Rightarrow> error + real list" where
  "exact_arange start stop step =
     (if step = 0 then Inl ZeroDivisionError
      else Inr (map (\<lambda>i. start + real i * step) [0..<nat \<lceil>(stop - start) / step\<rceil>]))"

text \<open>
  Three plans on the x axis that fly in [0,2]: \<open>plan_rest\<close> stays at the origin,
  \<open>plan_dip\<close> goes from 10 to 0 and back to 10, \<open>plan_leave\<close> goes from 0 to 20. The
  detector has safety distance 120 and time step 1, which makes the effective step 1.
\<close>

definition plan_rest :: flight_plan where
  "plan_rest = make_plan ''UAV_R'' [make_waypoint 0 0 0 0, make_waypoint 0 0 0 2]"

definition plan_dip :: flight_plan where
  "plan_dip = make_plan ''UAV_P''
     [make_waypoint 10 0 0 0, make_waypoint 0 0 0 1, make_waypoint 10 0 0 2]"

definition plan_leave :: flight_plan where
  "plan_leave = make_plan ''UAV_L'' [make_waypoint 0 0 0 0, make_waypoint 20 0 0 2]"

definition wide_detector :: conflict_detector where
  "wide_detector = new_detector 120 1 10 (3 / 2)"

definition conflict_rest_dip :: conflict where
  "conflict_rest_dip =
     \<lparr>uav1_id = ''UAV_R'', uav2_id = ''UAV_P'', time = 1,
      position1 = (0, 0, 0), position2 = (0, 0, 0), distance = 0, severity = 1\<rparr>"

definition conflict_rest_leave :: conflict where
  "conflict_rest_leave =
     \<lparr>uav1_id = ''UAV_R'', uav2_id = ''UAV_L'', time = 0,
      position1 = (0, 0, 0), position2 = (0, 0, 0), distance = 0, severity = 1\<rparr>"

definition conflict_dip_leave :: conflict where
  "conflict_dip_leave =
     \<lparr>uav1_id = ''UAV_P'', uav2_id = ''UAV_L'', time = 0,
      position1 = (10, 0, 0), position2 = (0, 0, 0), distance = 10, severity = 11 / 12\<rparr>"

text \<open>
  Two plans of two waypoints at time 0 each, one at the origin and one at \<open>x = 2^600\<close>,
  and a service that has the second one registered.
\<close>

definition far_x :: real where
  "far_x = 2 ^ 600"

definition plan_zero :: flight_plan where
  "plan_zero = make_plan ''UAV_Z0'' [make_waypoint 0 0 0 0, make_waypoint 0 0 0 0]"

definition plan_far :: flight_plan where
  "plan_far = make_plan ''UAV_Z1''
     [make_waypoint far_x 0 0 0, make_waypoint far_x 0 0 0]"

definition far_service :: mission_verification_service where
  "far_service = new_service [plan_far] 10 (1 / 2)"

text \<open>
  The same far position held from time 0 to time 1, so that the position at time 0 is
  interpolated, and a service that has this plan registered.
\<close>

definition plan_far_hold :: flight_plan where
  "plan_far_hold = make_plan ''UAV_Z2''
     [make_waypoint far_x 0 0 0, make_waypoint far_x 0 0 1]"

definition far_hold_service :: mission_verification_service where
  "far_hold_service = new_service [plan_far_hold] 10 (1 / 2)"

section \<open>Interpolation\<close>

lemma bind_err_simps [simp]:
  "bind_err (Inl e) k = Inl e"
  "bind_err (Inr v) k = k v"
  by (simp_all add: bind_err_def)

lemma bind_err_Inr:
  "bind_err m k = Inr r \<Longrightarrow> \<exists>v. m = Inr v \<and> k v = Inr r"
  by (cases m) simp_all

lemma py_div_nonzero: "b \<noteq> 0 \<Longrightarrow> py_div a b = Inr (a / b)"
  by (simp add: py_div_def)

lemma segment_loop_no_zero_division: "segment_loop ws t \<noteq> Inl ZeroDivisionError"
  by (induction ws t rule: segment_loop.induct) (auto simp: py_div_def)

lemma segment_loop_no_error: "segment_loop ws t \<noteq> Inl e"
  by (induction ws t rule: segment_loop.induct) (auto simp: py_div_def)

lemma segment_loop_found:
  "2 \<le> length ws \<Longrightarrow> wp_time (hd ws) \<le> t \<Longrightarrow> t \<le> wp_time (last ws)
   \<Longrightarrow> \<exists>p. segment_loop ws t = Inr (Some p)"
proof (induction ws t rule: segment_loop.induct)
  case (1 wp1 wp2 rest t)
  show ?case
  proof (cases "wp_time wp1 \<le> t \<and> t \<le> wp_time wp2")
    case True
    then show ?thesis by (simp add: py_div_def blend_def)
  next
    case False
    with "1.prems" have later: "wp_time wp2 < t" by simp
    with "1.prems" have "rest \<noteq> []" by auto
    then have "2 \<le> length (wp2 # rest)" by (cases rest) simp_all
    moreover have "wp_time (hd (wp2 # rest)) \<le> t" using later by simp
    moreover have "t \<le> wp_time (last (wp2 # rest))" using "1.prems" by simp
    ultimately have "\<exists>p. segment_loop (wp2 # rest) t = Inr (Some p)"
      using "1.IH" False by blast
    moreover have "segment_loop (wp1 # wp2 # rest) t = segment_loop (wp2 # rest) t"
      using False by auto
    ultimately show ?thesis by simp
  qed
qed simp_all

lemma interpolate_position_defined:
  "waypoints f \<noteq> [] \<Longrightarrow> \<exists>r. interpolate_position f t = Inr r"
proof -
  assume "waypoints f \<noteq> []"
  then obtain w0 ws where ws: "waypoints f = w0 # ws" by (cases "waypoints f") auto
  obtain r where "segment_loop (w0 # ws) t = Inr r"
    using segment_loop_no_error [of "w0 # ws" t] by (cases "segment_loop (w0 # ws) t") auto
  then show ?thesis by (simp add: interpolate_position_def ws)
qed

lemma interpolate_position_in_range:
  assumes "2 \<le> length (waypoints f)"
    and "wp_time (hd (waypoints f)) \<le> t" and "t \<le> wp_time (last (waypoints f))"
  shows "\<exists>p. interpolate_position f t = Inr (Some p)"
proof -
  from assms(1) obtain w0 ws where ws: "waypoints f = w0 # ws"
    by (cases "waypoints f") auto
  have "\<exists>p. segment_loop (waypoints f) t = Inr (Some p)"
    using assms by (rule segment_loop_found)
  moreover have "\<not> (t < wp_time w0 \<or> t > wp_time (last (w0 # ws)))"
    using assms(2,3) by (simp add: ws)
  ultimately show ?thesis
    by (simp only: interpolate_position_def ws list.case if_False)
qed

lemma segment_loop_zero_duration:
  "wp_time wp1 = t \<Longrightarrow> wp_time wp2 = t
   \<Longrightarrow> segment_loop (wp1 # wp2 # rest) t = Inr (Some (position_of wp1, Stored))"
  by (simp add: position_of_def)

lemma interpolate_position_span:
  assumes "interpolate_position f t = Inr (Some r)"
  shows "wp_time (hd (waypoints f)) \<le> t \<and> t \<le> wp_time (last (waypoints f))"
proof (cases "waypoints f")
  case Nil
  with assms show ?thesis by (simp add: interpolate_position_def)
next
  case (Cons w0 ws)
  with assms show ?thesis
    by (auto simp: interpolate_position_def split: if_splits)
qed




lemmas example_defs =
  make_waypoint_def make_plan_def plan_jump_def plan_line_def plan_hold_def
  plan_early_def plan_next_def plan_late_def default_detector_def new_detector_def

text \<open>
  C9: for a trajectory with at least two waypoints and a query time \<open>t\<close> with
  \<open>first.time \<le> t \<le> last.time\<close>, \<open>interpolate_position\<close> returns a position: it does
  not fall through to the trailing \<open>return None\<close> and raises nothing. A segment of zero
  duration that contains \<open>t\<close> is answered with its first waypoint's position, and the
  division of the segment loop never has a zero divisor, on any waypoint list. The proof
  does not need the times to be non-decreasing, so the claim's trajectories are covered.
\<close>

theorem interpolate_position_returns_position:
  assumes "2 \<le> length (waypoints f)"
    and "wp_time (hd (waypoints f)) \<le> t" and "t \<le> wp_time (last (waypoints f))"
  shows "(\<exists>p. interpolate_position f t = Inr (Some p))
       \<and> (\<forall>wp1 wp2 rest. wp_time wp1 = t \<and> wp_time wp2 = t
            \<longrightarrow> segment_loop (wp1 # wp2 # rest) t = Inr (Some (position_of wp1, Stored)))
       \<and> (\<forall>ws u. segment_loop ws u \<noteq> Inl ZeroDivisionError)"
  using interpolate_position_in_range [OF assms] segment_loop_zero_duration
    segment_loop_no_zero_division
  by blast

theorem interpolate_position_returns_position_witness:
  "2 \<le> length (waypoints plan_hold)
   \<and> wp_time (hd (waypoints plan_hold)) \<le> 0 \<and> 0 \<le> wp_time (last (waypoints plan_hold))
   \<and> interpolate_position plan_hold 0 = Inr (Some ((0, 0, 0), Stored))"
  using interpolate_position_returns_position [of plan_hold 0]
  by (simp add: example_defs interpolate_position_def)




section \<open>Squares, distances and the adaptive time step\<close>

lemma float_square_value: "float_square k v = Inr s \<Longrightarrow> s = v\<^sup>2"
  by (simp add: float_square_def split: if_splits)

lemma float_square_error: "float_square k v = Inl e \<Longrightarrow> e = OverflowError"
  by (simp add: float_square_def split: if_splits)

lemma float_square_minus: "float_square k (- v) = float_square k v"
  by (simp add: float_square_def)

lemma float_square_numpy: "float_square NpFloat v = Inr (v\<^sup>2)"
  by (simp add: float_square_def)

lemma float_square_small: "v\<^sup>2 < overflow_threshold \<Longrightarrow> float_square k v = Inr (v\<^sup>2)"
  by (simp add: float_square_def)

lemma weighted_distance_nonneg: "0 \<le> weighted_distance d p q"
  by (simp add: weighted_distance_def Let_def)

lemma weighted_distance_commute: "weighted_distance d p q = weighted_distance d q p"
proof -
  have "(a - b)\<^sup>2 = (b - a)\<^sup>2" for a b :: real
    by (rule power2_commute)
  moreover have "((a - b) * w)\<^sup>2 = ((b - a) * w)\<^sup>2" for a b w :: real
    by (simp add: power_mult_distrib power2_commute)
  ultimately show ?thesis
    by (simp add: weighted_distance_def Let_def)
qed

lemma sample_distance_value:
  assumes "sample_distance d r1 r2 = Inr m"
  shows "m = weighted_distance d (fst r1) (fst r2)"
proof -
  let ?k = "if snd r1 = Stored \<and> snd r2 = Stored then PyFloat else NpFloat"
  let ?dx = "fst (fst r1) - fst (fst r2)"
  let ?dy = "fst (snd (fst r1)) - fst (snd (fst r2))"
  let ?dz = "(snd (snd (fst r1)) - snd (snd (fst r2))) * vertical_weight d"
  from assms have run: "bind_err (float_square ?k ?dx) (\<lambda>sx.
         bind_err (float_square ?k ?dy) (\<lambda>sy.
         bind_err (float_square ?k ?dz) (\<lambda>sz. Inr (sqrt (sx + sy + sz))))) = Inr m"
    by (simp add: sample_distance_def Let_def)
  from bind_err_Inr [OF run] obtain sx where sx: "float_square ?k ?dx = Inr sx"
    and run2: "bind_err (float_square ?k ?dy) (\<lambda>sy.
         bind_err (float_square ?k ?dz) (\<lambda>sz. Inr (sqrt (sx + sy + sz)))) = Inr m"
    by blast
  from bind_err_Inr [OF run2] obtain sy where sy: "float_square ?k ?dy = Inr sy"
    and run3: "bind_err (float_square ?k ?dz) (\<lambda>sz. Inr (sqrt (sx + sy + sz))) = Inr m"
    by blast
  from bind_err_Inr [OF run3] obtain sz where sz: "float_square ?k ?dz = Inr sz"
    and m: "Inr (sqrt (sx + sy + sz)) = (Inr m :: error + real)"
    by blast
  from sx sy sz have "sx = ?dx\<^sup>2" "sy = ?dy\<^sup>2" "sz = ?dz\<^sup>2"
    by (simp_all add: float_square_value)
  with m show ?thesis by (simp add: weighted_distance_def Let_def)
qed

lemma sample_distance_nonneg: "sample_distance d r1 r2 = Inr m \<Longrightarrow> 0 \<le> m"
  using sample_distance_value [of d r1 r2 m] weighted_distance_nonneg [of d "fst r1" "fst r2"]
  by simp

lemma sample_distance_commute: "sample_distance d r2 r1 = sample_distance d r1 r2"
proof -
  have k: "(if snd r2 = Stored \<and> snd r1 = Stored then PyFloat else NpFloat)
         = (if snd r1 = Stored \<and> snd r2 = Stored then PyFloat else NpFloat)"
    by simp
  have sq: "float_square k (b - a) = float_square k (a - b)" for k and a b :: real
    using float_square_minus [of k "a - b"] by simp
  have sqw: "float_square k ((b - a) * w) = float_square k ((a - b) * w)"
    for k and a b w :: real
    using float_square_minus [of k "(a - b) * w"] by (simp add: algebra_simps)
  show ?thesis
    unfolding sample_distance_def Let_def k
    by (simp only: sq [of _ "fst (fst r2)" "fst (fst r1)"]
        sq [of _ "fst (snd (fst r2))" "fst (snd (fst r1))"]
        sqw [of _ "snd (snd (fst r2))" "snd (snd (fst r1))"])
qed

lemma sample_distance_error: "sample_distance d r1 r2 = Inl e \<Longrightarrow> e = OverflowError"
  unfolding sample_distance_def Let_def
  by (auto simp: bind_err_def dest: float_square_error split: sum.splits)

lemma distance_to_nonneg: "distance_to a b = Inr v \<Longrightarrow> 0 \<le> v"
  unfolding distance_to_def
  by (auto simp: bind_err_def dest!: float_square_value split: sum.splits)

lemma distance_to_error: "distance_to a b = Inl e \<Longrightarrow> e = OverflowError"
  unfolding distance_to_def
  by (auto simp: bind_err_def dest: float_square_error split: sum.splits)

lemma speed_loop_result:
  "(speed_loop ws m = Inr v \<longrightarrow> m \<le> v) \<and> (speed_loop ws m = Inl e \<longrightarrow> e = OverflowError)"
proof (induction ws m rule: speed_loop.induct)
  case (1 wp1 wp2 rest max_speed)
  show ?case
  proof (cases "wp_time wp2 - wp_time wp1 \<le> 0")
    case True
    with "1.IH"(1) show ?thesis by (simp add: Let_def)
  next
    case False
    show ?thesis
    proof (cases "distance_to wp1 wp2")
      case (Inl e')
      with False distance_to_error [OF Inl] show ?thesis by (simp add: Let_def)
    next
      case (Inr dist)
      define s where "s = dist / (wp_time wp2 - wp_time wp1)"
      have div: "py_div dist (wp_time wp2 - wp_time wp1) = Inr s"
        using False by (simp add: py_div_def s_def)
      show ?thesis
      proof (cases "s > max_speed")
        case True
        from "1.IH"(2) [OF refl False True]
        have "(speed_loop (wp2 # rest) s = Inr v \<longrightarrow> s \<le> v)
            \<and> (speed_loop (wp2 # rest) s = Inl e \<longrightarrow> e = OverflowError)" by blast
        with True False Inr div show ?thesis by (auto simp: Let_def)
      next
        case no: False
        from "1.IH"(3) [OF refl False no]
        have "(speed_loop (wp2 # rest) max_speed = Inr v \<longrightarrow> max_speed \<le> v)
            \<and> (speed_loop (wp2 # rest) max_speed = Inl e \<longrightarrow> e = OverflowError)" by blast
        with no False Inr div show ?thesis by (simp add: Let_def)
      qed
    qed
  qed
qed simp_all

lemma calculate_max_segment_speed_result:
  "(calculate_max_segment_speed d f = Inr v \<longrightarrow> 0 \<le> v)
   \<and> (calculate_max_segment_speed d f = Inl e \<longrightarrow> e = OverflowError)"
  using speed_loop_result [of "waypoints f" "max (speed f) 0" v e]
  by (auto simp: calculate_max_segment_speed_def)

lemma step_positive:
  fixes B D :: real
  assumes "0 < B"
  shows "0 < min B (max D (B * (1 / 10)))"
proof -
  have "0 < B * (1 / 10)" using assms by simp
  also have "\<dots> \<le> max D (B * (1 / 10))" by (rule max.cobounded2)
  finally show ?thesis using assms by (simp only: min_less_iff_conj simp_thms)
qed

lemma get_effective_time_step_result:
  "(get_effective_time_step d f1 f2 = Inr step \<longrightarrow> 0 < step)
   \<and> (get_effective_time_step d f1 f2 = Inl e \<longrightarrow> e = OverflowError)"
proof (cases "calculate_max_segment_speed d f1")
  case (Inl e1)
  with calculate_max_segment_speed_result [of d f1 0 e1]
  show ?thesis by (simp add: get_effective_time_step_def Let_def)
next
  case one: (Inr v1)
  with calculate_max_segment_speed_result [of d f1 v1 e] have v1: "0 \<le> v1" by simp
  show ?thesis
  proof (cases "calculate_max_segment_speed d f2")
    case (Inl e2)
    with one calculate_max_segment_speed_result [of d f2 0 e2]
    show ?thesis by (simp add: get_effective_time_step_def Let_def)
  next
    case two: (Inr v2)
    with calculate_max_segment_speed_result [of d f2 v2 e] have v2: "0 \<le> v2" by simp
    have base: "0 < max (time_step d) (1 / 1000)" by simp
    show ?thesis
    proof (cases "v1 + v2 \<le> 1 / 1000000")
      case True
      then show ?thesis using one two base
        by (simp add: get_effective_time_step_def Let_def)
    next
      case False
      then have nz: "(v1 + v2) * 4 \<noteq> 0" by auto
      have "0 < min (max (time_step d) (1 / 1000))
                  (max (safety_distance d / ((v1 + v2) * 4))
                       (max (time_step d) (1 / 1000) * (1 / 10)))"
        using base by (rule step_positive)
      then show ?thesis using one two False nz
        by (auto simp add: get_effective_time_step_def Let_def py_div_def)
    qed
  qed
qed

lemma get_effective_time_step_commute:
  "get_effective_time_step d f2 f1 = get_effective_time_step d f1 f2"
proof (cases "calculate_max_segment_speed d f1")
  case left: (Inl e1)
  then have e1: "e1 = OverflowError"
    using calculate_max_segment_speed_result [of d f1 0 e1] by simp
  show ?thesis
  proof (cases "calculate_max_segment_speed d f2")
    case (Inl e2)
    then have "e2 = OverflowError"
      using calculate_max_segment_speed_result [of d f2 0 e2] by simp
    with left Inl e1 show ?thesis by (simp add: get_effective_time_step_def)
  next
    case (Inr v2)
    with left show ?thesis by (simp add: get_effective_time_step_def)
  qed
next
  case one: (Inr v1)
  show ?thesis
  proof (cases "calculate_max_segment_speed d f2")
    case (Inl e2)
    with one show ?thesis by (simp add: get_effective_time_step_def)
  next
    case two: (Inr v2)
    show ?thesis
      unfolding get_effective_time_step_def one two bind_err_simps
      by (simp only: add.commute [of v2 v1])
  qed
qed

lemma linspace_facts:
  assumes "2 \<le> n" and "a \<le> b"
  shows "hd (linspace a b n) = a" and "last (linspace a b n) = b"
    and "length (linspace a b n) = n"
    and "\<forall>u \<in> set (linspace a b n). a \<le> u \<and> u \<le> b"
proof -
  let ?f = "\<lambda>i. a + real i * ((b - a) / real (n - 1))"
  have eq: "linspace a b n = map ?f [0..<n - 1] @ [b]"
    using assms(1) by (simp add: linspace_def)
  have ne: "[0..<n - 1] \<noteq> []" using assms(1) by simp
  have "hd (map ?f [0..<n - 1] @ [b]) = ?f (hd [0..<n - 1])"
    using ne by (simp add: hd_map)
  also have "hd [0..<n - 1] = 0" using ne by (simp add: hd_conv_nth)
  finally show "hd (linspace a b n) = a" by (simp add: eq)
  show "last (linspace a b n) = b" by (simp add: eq)
  show "length (linspace a b n) = n" using assms(1) by (simp add: eq)
  have "a \<le> ?f i \<and> ?f i \<le> b" if "i < n - 1" for i
  proof -
    define c where "c = (b - a) / real (n - 1)"
    have pos: "0 < real (n - 1)" using that by simp
    have c: "0 \<le> c" using assms(2) by (simp add: c_def)
    have low: "0 \<le> real i * c" using c by simp
    have "real i * c \<le> real (n - 1) * c"
      using that c by (intro mult_right_mono) simp_all
    also have "real (n - 1) * c = b - a" using pos by (simp add: c_def)
    finally have high: "real i * c \<le> b - a" .
    from low high have "a \<le> a + real i * c \<and> a + real i * c \<le> b" by simp
    then show ?thesis by (simp only: c_def)
  qed
  then show "\<forall>u \<in> set (linspace a b n). a \<le> u \<and> u \<le> b"
    using assms(2) by (auto simp: eq)
qed

lemma linspace_sorted:
  assumes "2 \<le> n" and "a \<le> b"
  shows "sorted (linspace a b n)"
proof -
  let ?f = "\<lambda>i. a + real i * ((b - a) / real (n - 1))"
  have eq: "linspace a b n = map ?f [0..<n - 1] @ [b]"
    using assms(1) by (simp add: linspace_def)
  have c: "0 \<le> (b - a) / real (n - 1)" using assms(2) by simp
  have "sorted_wrt (\<lambda>i j. ?f i \<le> ?f j) [0..<n - 1]"
  proof (rule sorted_wrt_mono_rel [OF _ sorted_wrt_upt])
    fix i j :: nat
    assume "i < j"
    then have "real i \<le> real j" by simp
    then have "real i * ((b - a) / real (n - 1)) \<le> real j * ((b - a) / real (n - 1))"
      using c by (rule mult_right_mono)
    then show "?f i \<le> ?f j" by simp
  qed
  then have "sorted (map ?f [0..<n - 1])" by (simp only: sorted_map)
  moreover have "\<forall>u \<in> set (map ?f [0..<n - 1]). u \<le> b"
    using linspace_facts(4) [OF assms] by (simp add: eq)
  ultimately show ?thesis by (simp add: eq sorted_append)
qed

lemma sample_times_result:
  "(sample_times d f1 f2 a b = Inr tms \<longrightarrow> tms \<noteq> [])
   \<and> (sample_times d f1 f2 a b = Inl e \<longrightarrow> e = OverflowError)"
proof (cases "\<bar>a - b\<bar> \<le> 1 / 1000000")
  case True
  then show ?thesis by (auto simp: sample_times_def)
next
  case False
  show ?thesis
  proof (cases "get_effective_time_step d f1 f2")
    case (Inl e')
    with False get_effective_time_step_result [of d f1 f2 0 e']
    show ?thesis by (simp add: sample_times_def)
  next
    case (Inr step)
    with get_effective_time_step_result [of d f1 f2 step e] have step: "0 < step" by simp
    have "linspace a b (nat (max (\<lceil>max (b - a) step / step\<rceil> + 1) 2)) \<noteq> []"
      by (simp add: linspace_def)
    then show ?thesis using False Inr step
      by (auto simp: sample_times_def Let_def py_div_def)
  qed
qed

lemma sample_times_commute: "sample_times d f2 f1 a b = sample_times d f1 f2 a b"
  by (simp add: sample_times_def get_effective_time_step_commute)

text \<open>
  The sample times of a window \<open>[a, b]\<close> with \<open>a \<le> b\<close>: they start at \<open>a\<close>, ascend and lie
  in the window; a window longer than \<open>1e-6\<close> has at least two of them and the last one is \<open>b\<close>.
\<close>

lemma sample_times_window:
  assumes "sample_times d f1 f2 a b = Inr tms" and "a \<le> b"
  shows "hd tms = a" and "\<forall>u \<in> set tms. a \<le> u \<and> u \<le> b"
    and "if b - a > 1 / 1000000 then last tms = b \<and> 2 \<le> length tms else tms = [a]"
    and "sorted tms"
proof -
  have "hd tms = a \<and> (\<forall>u \<in> set tms. a \<le> u \<and> u \<le> b)
      \<and> (if b - a > 1 / 1000000 then last tms = b \<and> 2 \<le> length tms else tms = [a])
      \<and> sorted tms"
  proof (cases "\<bar>a - b\<bar> \<le> 1 / 1000000")
    case True
    with assms have "tms = [a]" by (simp add: sample_times_def)
    with True assms(2) show ?thesis by auto
  next
    case False
    with assms(2) have long: "b - a > 1 / 1000000" by simp
    from assms(1) False obtain step q where
      "get_effective_time_step d f1 f2 = Inr step"
      "py_div (max (b - a) step) step = Inr q"
      "tms = linspace a b (nat (max (\<lceil>q\<rceil> + 1) 2))"
      by (auto simp: sample_times_def Let_def dest!: bind_err_Inr)
    then have tms: "tms = linspace a b (nat (max (\<lceil>q\<rceil> + 1) 2))" by simp
    have n: "2 \<le> nat (max (\<lceil>q\<rceil> + 1) 2)" by simp
    from linspace_facts [OF n assms(2)] linspace_sorted [OF n assms(2)] long n
    show ?thesis unfolding tms by simp
  qed
  then show "hd tms = a" and "\<forall>u \<in> set tms. a \<le> u \<and> u \<le> b"
    and "if b - a > 1 / 1000000 then last tms = b \<and> 2 \<le> length tms else tms = [a]"
    and "sorted tms"
    by simp_all
qed

section \<open>The sampling loop\<close>

lemma swap_closest_simps [simp]:
  "swap_closest None = None"
  "swap_closest (Some (m, t, p, q)) = Some (m, t, q, p)"
  by (simp_all add: swap_closest_def)

text \<open>A measured distance is the weighted distance of the two interpolated positions.\<close>

lemma measure_at_value:
  assumes "measure_at d f1 f2 u = Inr (Some (m, p1, p2))"
  shows "\<exists>r1 r2. interpolate_position f1 u = Inr (Some r1)
           \<and> interpolate_position f2 u = Inr (Some r2)
           \<and> p1 = fst r1 \<and> p2 = fst r2 \<and> sample_distance d r1 r2 = Inr m
           \<and> m = weighted_distance d p1 p2"
proof -
  from assms obtain o1 where o1: "interpolate_position f1 u = Inr o1"
    by (cases "interpolate_position f1 u") (simp_all add: measure_at_def)
  from assms o1 obtain o2 where o2: "interpolate_position f2 u = Inr o2"
    by (cases "interpolate_position f2 u") (simp_all add: measure_at_def)
  from assms o1 o2 obtain r1 r2 where r: "o1 = Some r1" "o2 = Some r2"
    by (cases o1; cases o2) (simp_all add: measure_at_def)
  from assms o1 o2 r obtain m' where m': "sample_distance d r1 r2 = Inr m'"
    by (cases "sample_distance d r1 r2") (simp_all add: measure_at_def)
  from assms o1 o2 r m' have "m' = m" "p1 = fst r1" "p2 = fst r2"
    by (simp_all add: measure_at_def)
  with o1 o2 r m' sample_distance_value [OF m'] show ?thesis by simp
qed

lemma measure_at_span:
  assumes "measure_at d f1 f2 u = Inr (Some r)"
  shows "window_start f1 f2 \<le> u \<and> u \<le> window_end f1 f2"
proof -
  obtain m p1 p2 where "r = (m, p1, p2)" by (cases r) auto
  with measure_at_value [of d f1 f2 u m p1 p2] assms obtain r1 r2 where
    "interpolate_position f1 u = Inr (Some r1)" "interpolate_position f2 u = Inr (Some r2)"
    by auto
  from interpolate_position_span [OF this(1)] interpolate_position_span [OF this(2)]
  show ?thesis by (simp add: window_start_def window_end_def)
qed

lemma measure_at_swap:
  assumes "waypoints f1 \<noteq> []" and "waypoints f2 \<noteq> []"
  shows "measure_at d f2 f1 u
       = map_sum id (map_option (\<lambda>(m, p, q). (m, q, p))) (measure_at d f1 f2 u)"
proof -
  obtain o1 o2 where o: "interpolate_position f1 u = Inr o1" "interpolate_position f2 u = Inr o2"
    using interpolate_position_defined assms by blast
  show ?thesis
  proof (cases "o1 = None \<or> o2 = None")
    case True
    with o show ?thesis by (auto simp: measure_at_def split: option.splits)
  next
    case False
    then obtain r1 r2 where r: "o1 = Some r1" "o2 = Some r2" by auto
    show ?thesis
      using o r sample_distance_commute [of d r2 r1]
      by (cases "sample_distance d r1 r2") (simp_all add: measure_at_def)
  qed
qed

text \<open>One turn of the loop, in terms of what is measured at the sample time.\<close>

lemma sample_loop_Cons:
  "sample_loop d f1 f2 (u # us) best =
     bind_err (measure_at d f1 f2 u) (\<lambda>r.
       case r of
         None \<Rightarrow> sample_loop d f1 f2 us best
       | Some (m', p1, p2) \<Rightarrow>
           if (case best of None \<Rightarrow> True | Some (m0, _) \<Rightarrow> m' < m0)
           then sample_loop d f1 f2 us (Some (m', u, p1, p2))
           else sample_loop d f1 f2 us best)"
proof (cases "interpolate_position f1 u")
  case (Inl e)
  then show ?thesis by (simp add: measure_at_def)
next
  case one: (Inr o1)
  show ?thesis
  proof (cases "interpolate_position f2 u")
    case (Inl e)
    with one show ?thesis by (simp add: measure_at_def)
  next
    case two: (Inr o2)
    show ?thesis
    proof (cases "o1 = None \<or> o2 = None")
      case True
      with one two show ?thesis by (auto simp: measure_at_def split: option.splits)
    next
      case False
      then obtain r1 r2 where r: "o1 = Some r1" "o2 = Some r2" by auto
      show ?thesis
        using one two r
        by (cases "sample_distance d r1 r2") (simp_all add: measure_at_def)
    qed
  qed
qed

declare sample_loop.simps(2) [simp del]

lemma sample_loop_Cons_cases:
  assumes "sample_loop d f1 f2 (u # us) best = Inr res"
  obtains
    (skip) "measure_at d f1 f2 u = Inr None"
      "sample_loop d f1 f2 us best = Inr res"
  | (take) m' q1 q2 where "measure_at d f1 f2 u = Inr (Some (m', q1, q2))"
      "case best of None \<Rightarrow> True | Some (m0, _) \<Rightarrow> m' < m0"
      "sample_loop d f1 f2 us (Some (m', u, q1, q2)) = Inr res"
  | (keep) m' q1 q2 where "measure_at d f1 f2 u = Inr (Some (m', q1, q2))"
      "\<not> (case best of None \<Rightarrow> True | Some (m0, _) \<Rightarrow> m' < m0)"
      "sample_loop d f1 f2 us best = Inr res"
proof (cases "measure_at d f1 f2 u")
  case (Inl e)
  with assms show ?thesis by (simp add: sample_loop_Cons)
next
  case (Inr r)
  show ?thesis
  proof (cases r)
    case None
    with Inr assms show ?thesis by (intro skip) (simp_all add: sample_loop_Cons)
  next
    case (Some triple)
    obtain m' q1 q2 where t: "triple = (m', q1, q2)" by (cases triple) auto
    show ?thesis
    proof (cases "case best of None \<Rightarrow> True | Some (m0, _) \<Rightarrow> m' < m0")
      case True
      with Inr Some t assms show ?thesis
        by (intro take [of m' q1 q2]) (simp_all add: sample_loop_Cons)
    next
      case False
      with Inr Some t assms show ?thesis
        by (intro keep [of m' q1 q2]) (simp_all add: sample_loop_Cons)
    qed
  qed
qed

text \<open>The tracked sample is the initial one or a sample of the list where both plans fly.\<close>

lemma sample_loop_origin:
  "sample_loop d f1 f2 ts best = Inr (Some (m, t, p1, p2))
   \<Longrightarrow> best = Some (m, t, p1, p2)
       \<or> (t \<in> set ts \<and> measure_at d f1 f2 t = Inr (Some (m, p1, p2)))"
proof (induction ts arbitrary: best)
  case Nil
  then show ?case by simp
next
  case (Cons u us)
  from Cons.prems show ?case
  proof (cases rule: sample_loop_Cons_cases)
    case skip
    from Cons.IH [OF skip(2)] show ?thesis by auto
  next
    case (take m' q1 q2)
    from Cons.IH [OF take(3)] take(1) show ?thesis by auto
  next
    case (keep m' q1 q2)
    from Cons.IH [OF keep(3)] show ?thesis by auto
  qed
qed

text \<open>The tracked distance is a lower bound of the initial one and of every sample.\<close>

lemma sample_loop_least:
  "sample_loop d f1 f2 ts best = Inr (Some (m, t, p1, p2))
   \<Longrightarrow> (\<forall>m0 rest. best = Some (m0, rest) \<longrightarrow> m \<le> m0)
       \<and> (\<forall>u \<in> set ts. \<forall>m' q. measure_at d f1 f2 u = Inr (Some (m', q)) \<longrightarrow> m \<le> m')"
proof (induction ts arbitrary: best)
  case Nil
  then show ?case by simp
next
  case (Cons u us)
  from Cons.prems show ?case
  proof (cases rule: sample_loop_Cons_cases)
    case skip
    from Cons.IH [OF skip(2)] skip(1) show ?thesis by auto
  next
    case (take m' q1 q2)
    from Cons.IH [OF take(3)] have
      le: "m \<le> m'" and
      rest: "\<forall>u \<in> set us. \<forall>m' q. measure_at d f1 f2 u = Inr (Some (m', q)) \<longrightarrow> m \<le> m'"
      by blast+
    from le take(2) have "\<forall>m0 rest. best = Some (m0, rest) \<longrightarrow> m \<le> m0"
      by (auto split: option.splits)
    with le rest take(1) show ?thesis by auto
  next
    case (keep m' q1 q2)
    from Cons.IH [OF keep(3)] have
      best: "\<forall>m0 rest. best = Some (m0, rest) \<longrightarrow> m \<le> m0" and
      rest: "\<forall>u \<in> set us. \<forall>m' q. measure_at d f1 f2 u = Inr (Some (m', q)) \<longrightarrow> m \<le> m'"
      by blast+
    from keep(2) best have "m \<le> m'"
      by (auto split: option.splits)
    with best rest keep(1) show ?thesis by auto
  qed
qed

text \<open>
  Exchanging the two plans exchanges the two tracked positions and nothing else; the
  loop raises on one order exactly when it raises on the other, with the same error.
\<close>

lemma sample_loop_swap:
  "waypoints f1 \<noteq> [] \<Longrightarrow> waypoints f2 \<noteq> []
   \<Longrightarrow> sample_loop d f2 f1 ts (swap_closest best)
       = map_sum id swap_closest (sample_loop d f1 f2 ts best)"
proof (induction ts arbitrary: best)
  case Nil
  show ?case by simp
next
  case (Cons u us)
  have IH: "sample_loop d f2 f1 us (swap_closest b)
              = map_sum id swap_closest (sample_loop d f1 f2 us b)" for b
    using Cons.IH Cons.prems by blast
  have sw: "measure_at d f2 f1 u
       = map_sum id (map_option (\<lambda>(m, p, q). (m, q, p))) (measure_at d f1 f2 u)"
    using Cons.prems by (rule measure_at_swap)
  have same: "(case swap_closest best of None \<Rightarrow> True | Some (m0, _) \<Rightarrow> m' < m0)
            = (case best of None \<Rightarrow> True | Some (m0, _) \<Rightarrow> m' < m0)" for m' :: real
    by (cases best) auto
  show ?case
  proof (cases "measure_at d f1 f2 u")
    case (Inl e)
    with sw show ?thesis by (simp add: sample_loop_Cons)
  next
    case (Inr r)
    show ?thesis
    proof (cases r)
      case None
      with Inr have one: "measure_at d f1 f2 u = Inr None" by simp
      with sw have two: "measure_at d f2 f1 u = Inr None" by simp
      show ?thesis
        unfolding sample_loop_Cons [of d f1 f2] sample_loop_Cons [of d f2 f1] one two
        by (simp only: bind_err_simps option.case IH)
    next
      case (Some triple)
      obtain m' q1 q2 where t: "triple = (m', q1, q2)" by (cases triple) auto
      have one: "measure_at d f1 f2 u = Inr (Some (m', q1, q2))"
        using Inr Some t by simp
      with sw have two: "measure_at d f2 f1 u = Inr (Some (m', q2, q1))" by simp
      have IH': "sample_loop d f2 f1 us (Some (m', u, q2, q1))
              = map_sum id swap_closest (sample_loop d f1 f2 us (Some (m', u, q1, q2)))"
        using IH [of "Some (m', u, q1, q2)"] by simp
      show ?thesis
      proof (cases "case best of None \<Rightarrow> True | Some (m0, _) \<Rightarrow> m' < m0")
        case True
        with same [of m'] have "case swap_closest best of None \<Rightarrow> True | Some (m0, _) \<Rightarrow> m' < m0"
          by simp
        with True show ?thesis
          unfolding sample_loop_Cons [of d f1 f2] sample_loop_Cons [of d f2 f1] one two
          by (simp only: bind_err_simps option.case prod.case if_True IH')
      next
        case False
        with same [of m']
        have "\<not> (case swap_closest best of None \<Rightarrow> True | Some (m0, _) \<Rightarrow> m' < m0)"
          by simp
        with False show ?thesis
          unfolding sample_loop_Cons [of d f1 f2] sample_loop_Cons [of d f2 f1] one two
          by (simp only: bind_err_simps option.case prod.case if_False IH)
      qed
    qed
  qed
qed

section \<open>The pairwise check\<close>

lemma check_pair_empty:
  "waypoints f1 = [] \<or> waypoints f2 = [] \<Longrightarrow> check_pair d f1 f2 = Inl IndexError"
  by (auto simp: check_pair_def split: list.splits)

lemma check_pair_no_overlap:
  assumes "waypoints f1 \<noteq> []" and "waypoints f2 \<noteq> []"
    and "window_start f1 f2 - window_end f1 f2 > 1 / 1000000"
  shows "check_pair d f1 f2 = Inr []"
proof -
  obtain a0 as where a: "waypoints f1 = a0 # as" using assms(1) by (cases "waypoints f1") auto
  obtain b0 bs where b: "waypoints f2 = b0 # bs" using assms(2) by (cases "waypoints f2") auto
  from assms(3) have gap:
    "max (wp_time a0) (wp_time b0) - min (wp_time (last (a0 # as))) (wp_time (last (b0 # bs)))
       > 1 / 1000000"
    by (simp add: window_start_def window_end_def a b)
  then have "max (wp_time a0) (wp_time b0)
               > min (wp_time (last (a0 # as))) (wp_time (last (b0 # bs)))"
    by linarith
  with gap show ?thesis
    by (simp only: check_pair_def a b list.case Let_def if_True simp_thms)
qed

lemma check_pair_overlap:
  assumes "waypoints f1 \<noteq> []" and "waypoints f2 \<noteq> []"
    and "\<not> window_start f1 f2 - window_end f1 f2 > 1 / 1000000"
  shows "check_pair d f1 f2 =
     bind_err (sample_times d f1 f2 (window_start f1 f2) (window_end f1 f2)) (\<lambda>tms.
     bind_err (sample_loop d f1 f2 tms None) (\<lambda>best.
       case best of
         None \<Rightarrow> Inr []
       | Some (m, t, p1, p2) \<Rightarrow>
           if m < safety_distance d then
             bind_err (severity_of m (safety_distance d)) (\<lambda>sev.
               Inr [\<lparr>uav1_id = uav_id f1, uav2_id = uav_id f2, time = t,
                     position1 = p1, position2 = p2, distance = m, severity = sev\<rparr>])
           else Inr []))"
proof -
  obtain a0 as where a: "waypoints f1 = a0 # as" using assms(1) by (cases "waypoints f1") auto
  obtain b0 bs where b: "waypoints f2 = b0 # bs" using assms(2) by (cases "waypoints f2") auto
  have s: "max (wp_time a0) (wp_time b0) = window_start f1 f2"
    and e: "min (wp_time (last (a0 # as))) (wp_time (last (b0 # bs))) = window_end f1 f2"
    by (simp_all add: window_start_def window_end_def a b)
  have no: "\<not> (window_start f1 f2 > window_end f1 f2
               \<and> window_start f1 f2 - window_end f1 f2 > 1 / 1000000)"
    using assms(3) by simp
  show ?thesis
    unfolding check_pair_def a b list.case Let_def s e
    using no by (simp only: if_False)
qed

lemma severity_of_in_range:
  assumes "0 \<le> m" and "m < s"
  shows "severity_of m s = Inr (max 0 (min 1 (1 - m / s)))"
    and "max 0 (min 1 (1 - m / s)) = 1 - m / s"
    and "0 < 1 - m / s" and "1 - m / s \<le> 1"
proof -
  from assms have s: "0 < s" by simp
  then show "severity_of m s = Inr (max 0 (min 1 (1 - m / s)))"
    by (simp add: severity_of_def py_div_def)
  from assms s have "m / s < 1" by simp
  then show "0 < 1 - m / s" by simp
  from assms s have "0 \<le> m / s" by simp
  then show "1 - m / s \<le> 1" by simp
  with \<open>0 < 1 - m / s\<close> show "max 0 (min 1 (1 - m / s)) = 1 - m / s" by simp
qed

text \<open>
  What the pairwise check has returned when it returns: nothing, or the one conflict at
  the sample of least measured distance.
\<close>

lemma check_pair_result:
  assumes "check_pair d f1 f2 = Inr cs"
  shows "cs = []
       \<or> (\<exists>tms m t p1 p2.
            sample_times d f1 f2 (window_start f1 f2) (window_end f1 f2) = Inr tms
            \<and> t \<in> set tms
            \<and> measure_at d f1 f2 t = Inr (Some (m, p1, p2))
            \<and> m = weighted_distance d p1 p2 \<and> m < safety_distance d
            \<and> (\<forall>u \<in> set tms. \<forall>m' q. measure_at d f1 f2 u = Inr (Some (m', q)) \<longrightarrow> m \<le> m')
            \<and> cs = [\<lparr>uav1_id = uav_id f1, uav2_id = uav_id f2, time = t,
                      position1 = p1, position2 = p2, distance = m,
                      severity = max 0 (min 1 (1 - m / safety_distance d))\<rparr>])"
proof (cases "window_start f1 f2 - window_end f1 f2 > 1 / 1000000")
  case True
  from assms have ne: "waypoints f1 \<noteq> []" "waypoints f2 \<noteq> []"
    using check_pair_empty [of f1 f2 d] by auto
  with True assms show ?thesis by (simp add: check_pair_no_overlap)
next
  case False
  from assms have ne: "waypoints f1 \<noteq> []" "waypoints f2 \<noteq> []"
    using check_pair_empty [of f1 f2 d] by auto
  note cp = check_pair_overlap [OF ne False, of d]
  from assms obtain tms where tms:
    "sample_times d f1 f2 (window_start f1 f2) (window_end f1 f2) = Inr tms"
    unfolding cp by (auto dest: bind_err_Inr)
  from assms obtain best where best: "sample_loop d f1 f2 tms None = Inr best"
    unfolding cp tms bind_err_simps by (auto dest: bind_err_Inr)
  show ?thesis
  proof (cases best)
    case None
    with assms show ?thesis unfolding cp tms best bind_err_simps by simp
  next
    case (Some quad)
    obtain m t p1 p2 where quad: "quad = (m, t, p1, p2)" by (cases quad) auto
    have run: "sample_loop d f1 f2 tms None = Inr (Some (m, t, p1, p2))"
      using best Some quad by simp
    from sample_loop_origin [OF run]
    have origin: "t \<in> set tms" "measure_at d f1 f2 t = Inr (Some (m, p1, p2))"
      by simp_all
    from measure_at_value [OF origin(2)] have m: "m = weighted_distance d p1 p2" by blast
    from sample_loop_least [OF run]
    have least: "\<forall>u \<in> set tms. \<forall>m' q. measure_at d f1 f2 u = Inr (Some (m', q)) \<longrightarrow> m \<le> m'"
      by blast
    show ?thesis
    proof (cases "m < safety_distance d")
      case False
      with assms Some quad show ?thesis unfolding cp tms best bind_err_simps by simp
    next
      case True
      have "0 \<le> m" using m weighted_distance_nonneg by simp
      from severity_of_in_range(1) [OF this True] assms Some quad True
      have "cs = [\<lparr>uav1_id = uav_id f1, uav2_id = uav_id f2, time = t,
                      position1 = p1, position2 = p2, distance = m,
                      severity = max 0 (min 1 (1 - m / safety_distance d))\<rparr>]"
        unfolding cp tms best bind_err_simps by simp
      with tms origin m least True show ?thesis by blast
    qed
  qed
qed

lemma check_pair_length: "check_pair d f1 f2 = Inr cs \<Longrightarrow> length cs \<le> 1"
  using check_pair_result [of d f1 f2 cs] by auto

lemma find_conflicts_two:
  "find_conflicts d [f1, f2] = bind_err (check_pair d f1 f2) (\<lambda>cs. Inr (sort_key time cs))"
  by (cases "check_pair d f1 f2") (simp_all add: find_conflicts_def)

lemma sort_key_short: "length cs \<le> 1 \<Longrightarrow> sort_key k cs = cs"
  by (cases cs) (auto simp: Suc_le_eq)

lemma find_conflicts_two_eq: "find_conflicts d [f1, f2] = check_pair d f1 f2"
proof (cases "check_pair d f1 f2")
  case (Inl e)
  then show ?thesis by (simp add: find_conflicts_two)
next
  case (Inr cs)
  then have "sort_key time cs = cs" by (intro sort_key_short check_pair_length)
  with Inr show ?thesis by (simp add: find_conflicts_two)
qed

text \<open>
  C5: when the time spans of two plans do not overlap, the start of the later one lying
  more than \<open>1e-6\<close> seconds after the end of the earlier one, the pairwise check emits no
  conflict, whatever the positions are; so does \<open>find_conflicts\<close> on the two plans.
\<close>

theorem check_pair_disjoint_spans:
  assumes "waypoints f1 \<noteq> []" and "waypoints f2 \<noteq> []"
    and "wp_time (hd (waypoints f2)) - wp_time (last (waypoints f1)) > 1 / 1000000
         \<or> wp_time (hd (waypoints f1)) - wp_time (last (waypoints f2)) > 1 / 1000000"
  shows "check_pair d f1 f2 = Inr [] \<and> find_conflicts d [f1, f2] = Inr []"
proof -
  from assms(3) have "window_start f1 f2 - window_end f1 f2 > 1 / 1000000"
    unfolding window_start_def window_end_def by linarith
  with assms(1,2) have "check_pair d f1 f2 = Inr []" by (rule check_pair_no_overlap)
  then show ?thesis by (simp add: find_conflicts_two_eq)
qed

theorem check_pair_disjoint_spans_witness:
  "waypoints plan_early \<noteq> [] \<and> waypoints plan_late \<noteq> []
   \<and> wp_time (hd (waypoints plan_late)) - wp_time (last (waypoints plan_early)) > 1 / 1000000
   \<and> position_of (hd (waypoints plan_early)) = position_of (hd (waypoints plan_late))
   \<and> check_pair default_detector plan_early plan_late = Inr []"
  using check_pair_disjoint_spans [of plan_early plan_late default_detector]
  by (simp add: example_defs position_of_def)

text \<open>
  C4: every emitted conflict has \<open>0 \<le> distance < safety_distance\<close> and the severity
  \<open>clamp(1 - distance / safety_distance, 0, 1)\<close>. As a function of the distance, for a
  positive safety distance, this value lies in [0,1], does not increase when the distance
  grows, decreases strictly on \<open>[0, safety_distance]\<close>, and is 0 exactly for the distances
  from \<open>safety_distance\<close> upwards: among the distances up to the safety distance, those
  that a minimum can have at the boundary or below it, exactly at \<open>safety_distance\<close>.
\<close>

theorem severity_clamped_ratio:
  "(check_pair d f1 f2 = Inr cs \<and> c \<in> set cs
      \<longrightarrow> 0 \<le> distance c \<and> distance c < safety_distance d
          \<and> severity_of (distance c) (safety_distance d) = Inr (severity c)
          \<and> severity c = max 0 (min 1 (1 - distance c / safety_distance d))
          \<and> 0 < severity c \<and> severity c \<le> 1)
   \<and> (0 < s
      \<longrightarrow> severity_of m s = Inr (max 0 (min 1 (1 - m / s)))
          \<and> 0 \<le> max 0 (min 1 (1 - m / s)) \<and> max 0 (min 1 (1 - m / s)) \<le> (1::real)
          \<and> (max 0 (min 1 (1 - m / s)) = 0 \<longleftrightarrow> s \<le> m)
          \<and> (m \<le> s \<longrightarrow> (max 0 (min 1 (1 - m / s)) = 0 \<longleftrightarrow> m = s))
          \<and> (m \<le> m' \<longrightarrow> max 0 (min 1 (1 - m' / s)) \<le> max 0 (min 1 (1 - m / s)))
          \<and> (0 \<le> m \<and> m < m' \<and> m' \<le> s
                \<longrightarrow> max 0 (min 1 (1 - m' / s)) < max 0 (min 1 (1 - m / s))))"
proof (intro conjI impI)
  assume "check_pair d f1 f2 = Inr cs \<and> c \<in> set cs"
  then have cp: "check_pair d f1 f2 = Inr cs" and c: "c \<in> set cs" by simp_all
  from check_pair_result [OF cp] c
  obtain p1 p2 where dist: "distance c = weighted_distance d p1 p2"
    and lt: "distance c < safety_distance d"
    and sev: "severity c = max 0 (min 1 (1 - distance c / safety_distance d))"
    by auto
  from dist have nonneg: "0 \<le> distance c" by (simp add: weighted_distance_nonneg)
  note facts = severity_of_in_range [OF nonneg lt]
  show "0 \<le> distance c" by (rule nonneg)
  show "distance c < safety_distance d" by (rule lt)
  show "severity_of (distance c) (safety_distance d) = Inr (severity c)"
    using facts(1) sev by simp
  show "severity c = max 0 (min 1 (1 - distance c / safety_distance d))" by (rule sev)
  show "0 < severity c" using facts(2,3) sev by simp
  show "severity c \<le> 1" using facts(2,4) sev by simp
next
  assume s: "0 < s"
  then show "severity_of m s = Inr (max 0 (min 1 (1 - m / s)))"
    by (simp add: severity_of_def py_div_def)
  show "0 \<le> max 0 (min 1 (1 - m / s))" by simp
  show "max 0 (min 1 (1 - m / s)) \<le> (1::real)" by simp
  show "max 0 (min 1 (1 - m / s)) = 0 \<longleftrightarrow> s \<le> m"
    using s by (auto simp: max_def min_def field_simps)
  { assume "m \<le> s"
    then show "max 0 (min 1 (1 - m / s)) = 0 \<longleftrightarrow> m = s"
      using s by (auto simp: max_def min_def field_simps) }
  { assume "m \<le> m'"
    then have "m / s \<le> m' / s" using s by (simp add: divide_right_mono)
    then show "max 0 (min 1 (1 - m' / s)) \<le> max 0 (min 1 (1 - m / s))"
      by (auto simp: max_def min_def) }
  { assume a: "0 \<le> m \<and> m < m' \<and> m' \<le> s"
    then have "m / s < m' / s" using s by (simp add: divide_strict_right_mono)
    moreover from a s have "0 \<le> m / s" "m' / s \<le> 1" by simp_all
    ultimately show "max 0 (min 1 (1 - m' / s)) < max 0 (min 1 (1 - m / s))"
      by (auto simp: max_def min_def) }
qed

lemma check_pair_handover:
  "check_pair default_detector plan_early plan_next = Inr [conflict_at_handover]"
  by (simp add: check_pair_def example_defs sample_times_def sample_loop.simps
      interpolate_position_def blend_def sample_distance_def float_square_def
      severity_of_def py_div_def conflict_at_handover_def)

theorem severity_clamped_ratio_witness:
  "check_pair default_detector plan_early plan_next = Inr [conflict_at_handover]
   \<and> distance conflict_at_handover = 0 \<and> severity conflict_at_handover = 1
   \<and> severity_of 5 10 = Inr (1 / 2) \<and> severity_of 10 10 = Inr 0"
  using severity_clamped_ratio [of default_detector plan_early plan_next
      "[conflict_at_handover]" conflict_at_handover 10 5 10]
    severity_clamped_ratio [of default_detector plan_early plan_next
      "[conflict_at_handover]" conflict_at_handover 10 10 10]
    check_pair_handover
  by (simp add: conflict_at_handover_def)

section \<open>Order symmetry\<close>

lemma check_pair_swap:
  "check_pair d f2 f1 = map_sum id (map swap_conflict) (check_pair d f1 f2)"
proof (cases "waypoints f1 = [] \<or> waypoints f2 = []")
  case True
  then have "waypoints f2 = [] \<or> waypoints f1 = []" by auto
  then have "check_pair d f2 f1 = Inl IndexError" by (rule check_pair_empty)
  moreover from True have "check_pair d f1 f2 = Inl IndexError" by (rule check_pair_empty)
  ultimately show ?thesis by simp
next
  case False
  then have ne: "waypoints f1 \<noteq> []" "waypoints f2 \<noteq> []" by simp_all
  have ws: "window_start f2 f1 = window_start f1 f2"
    and we: "window_end f2 f1 = window_end f1 f2"
    by (simp_all add: window_start_def window_end_def max.commute min.commute)
  show ?thesis
  proof (cases "window_start f1 f2 - window_end f1 f2 > 1 / 1000000")
    case True
    then have "check_pair d f1 f2 = Inr []" using ne by (intro check_pair_no_overlap)
    moreover from True have "check_pair d f2 f1 = Inr []"
      using ne ws we by (intro check_pair_no_overlap) simp_all
    ultimately show ?thesis by simp
  next
    case no: False
    have no': "\<not> window_start f2 f1 - window_end f2 f1 > 1 / 1000000"
      using no by (simp add: ws we)
    have st: "sample_times d f2 f1 (window_start f2 f1) (window_end f2 f1)
            = sample_times d f1 f2 (window_start f1 f2) (window_end f1 f2)"
      by (simp add: ws we sample_times_commute)
    note cp = check_pair_overlap [OF ne no, of d]
    note cp' = check_pair_overlap [OF ne(2,1) no', of d, unfolded st]
    show ?thesis
    proof (cases "sample_times d f1 f2 (window_start f1 f2) (window_end f1 f2)")
      case (Inl e)
      then show ?thesis unfolding cp cp' by simp
    next
      case tms: (Inr tms)
      have sw: "sample_loop d f2 f1 tms None
              = map_sum id swap_closest (sample_loop d f1 f2 tms None)"
        using sample_loop_swap [OF ne, of d tms None] by simp
      show ?thesis
      proof (cases "sample_loop d f1 f2 tms None")
        case (Inl e)
        with sw have "sample_loop d f2 f1 tms None = Inl e" by simp
        with Inl show ?thesis unfolding cp cp' tms bind_err_simps by simp
      next
        case best: (Inr best)
        with sw have best': "sample_loop d f2 f1 tms None = Inr (swap_closest best)" by simp
        show ?thesis
        proof (cases best)
          case None
          then show ?thesis unfolding cp cp' tms best best' bind_err_simps by simp
        next
          case (Some quad)
          obtain m t p1 p2 where quad: "quad = (m, t, p1, p2)" by (cases quad) auto
          show ?thesis
          proof (cases "m < safety_distance d")
            case False
            with Some quad show ?thesis unfolding cp cp' tms best best' bind_err_simps by simp
          next
            case True
            show ?thesis
            proof (cases "severity_of m (safety_distance d)")
              case (Inl e)
              with Some quad True show ?thesis
                unfolding cp cp' tms best best' bind_err_simps by simp
            next
              case (Inr sev)
              with Some quad True show ?thesis
                unfolding cp cp' tms best best' bind_err_simps by (simp add: swap_conflict_def)
            qed
          qed
        qed
      qed
    qed
  qed
qed

text \<open>
  C3: \<open>find_conflicts([B, A])\<close> returns the conflicts of \<open>find_conflicts([A, B])\<close> with the
  two identifiers exchanged and the two positions exchanged, and with the same time,
  distance and severity; when one call raises, the other raises the same exception.
\<close>

theorem find_conflicts_order_symmetric:
  "find_conflicts d [f2, f1] = map_sum id (map swap_conflict) (find_conflicts d [f1, f2])
   \<and> time (swap_conflict c) = time c \<and> distance (swap_conflict c) = distance c
   \<and> severity (swap_conflict c) = severity c
   \<and> uav1_id (swap_conflict c) = uav2_id c \<and> uav2_id (swap_conflict c) = uav1_id c
   \<and> position1 (swap_conflict c) = position2 c \<and> position2 (swap_conflict c) = position1 c"
proof -
  have "find_conflicts d [f2, f1] = check_pair d f2 f1" by (rule find_conflicts_two_eq)
  also have "\<dots> = map_sum id (map swap_conflict) (check_pair d f1 f2)"
    by (rule check_pair_swap)
  also have "check_pair d f1 f2 = find_conflicts d [f1, f2]"
    by (rule find_conflicts_two_eq [symmetric])
  finally have main:
    "find_conflicts d [f2, f1] = map_sum id (map swap_conflict) (find_conflicts d [f1, f2])" .
  have fields: "time (swap_conflict c) = time c \<and> distance (swap_conflict c) = distance c
   \<and> severity (swap_conflict c) = severity c
   \<and> uav1_id (swap_conflict c) = uav2_id c \<and> uav2_id (swap_conflict c) = uav1_id c
   \<and> position1 (swap_conflict c) = position2 c \<and> position2 (swap_conflict c) = position1 c"
    by (simp add: swap_conflict_def)
  show ?thesis by (rule conjI [OF main fields])
qed

theorem find_conflicts_order_symmetric_witness:
  "find_conflicts default_detector [plan_next, plan_early]
     = Inr [\<lparr>uav1_id = ''UAV_B'', uav2_id = ''UAV_A'', time = 1,
            position1 = (0, 0, 0), position2 = (0, 0, 0), distance = 0, severity = 1\<rparr>]"
  using find_conflicts_order_symmetric [of default_detector plan_next plan_early
      conflict_at_handover]
  by (simp add: find_conflicts_two_eq check_pair_handover swap_conflict_def
      conflict_at_handover_def)

section \<open>All pairs\<close>

lemma all_pairs_double_length:
  "2 * length (all_pairs xs) + length xs = length xs * length xs"
  by (induction xs) (simp_all add: algebra_simps)

lemma all_pairs_length: "length (all_pairs xs) = length xs * (length xs - 1) div 2"
proof -
  have "length xs * (length xs - 1) = length xs * length xs - length xs"
    by (simp add: algebra_simps)
  also have "\<dots> = 2 * length (all_pairs xs)"
    using all_pairs_double_length [of xs] by simp
  finally show ?thesis by simp
qed

lemma all_pairs_nth:
  "all_pairs xs
     = concat (map (\<lambda>i. map (\<lambda>j. (xs ! i, xs ! j)) [Suc i..<length xs]) [0..<length xs])"
proof (induction xs)
  case Nil
  show ?case by simp
next
  case (Cons x xs)
  have row: "map (\<lambda>j. ((x # xs) ! 0, (x # xs) ! j)) [Suc 0..<length (x # xs)] = map (Pair x) xs"
  proof -
    have "[Suc 0..<Suc (length xs)] = map Suc [0..<length xs]"
      by (simp only: map_Suc_upt)
    then have "map (\<lambda>j. ((x # xs) ! 0, (x # xs) ! j)) [Suc 0..<length (x # xs)]
                 = map (\<lambda>j. (x, xs ! j)) [0..<length xs]"
      by (simp add: comp_def)
    also have "\<dots> = map (Pair x) (map (\<lambda>j. xs ! j) [0..<length xs])"
      by (simp add: comp_def)
    also have "map (\<lambda>j. xs ! j) [0..<length xs] = xs" by (rule map_nth)
    finally show ?thesis .
  qed
  have others: "map (\<lambda>i. map (\<lambda>j. ((x # xs) ! i, (x # xs) ! j)) [Suc i..<length (x # xs)])
                  (map Suc [0..<length xs])
              = map (\<lambda>i. map (\<lambda>j. (xs ! i, xs ! j)) [Suc i..<length xs]) [0..<length xs]"
  proof -
    have "map (\<lambda>j. ((x # xs) ! Suc i, (x # xs) ! j)) [Suc (Suc i)..<Suc (length xs)]
            = map (\<lambda>j. (xs ! i, xs ! j)) [Suc i..<length xs]" for i
    proof -
      have "[Suc (Suc i)..<Suc (length xs)] = map Suc [Suc i..<length xs]"
        by (simp only: map_Suc_upt)
      then show ?thesis by (simp add: comp_def)
    qed
    then show ?thesis by (simp add: comp_def)
  qed
  have "[0..<length (x # xs)] = 0 # map Suc [0..<length xs]"
    by (simp add: upt_conv_Cons map_Suc_upt del: upt_Suc)
  then have "concat (map (\<lambda>i. map (\<lambda>j. ((x # xs) ! i, (x # xs) ! j)) [Suc i..<length (x # xs)])
                 [0..<length (x # xs)])
           = map (\<lambda>j. ((x # xs) ! 0, (x # xs) ! j)) [Suc 0..<length (x # xs)]
             @ concat (map (\<lambda>i. map (\<lambda>j. ((x # xs) ! i, (x # xs) ! j)) [Suc i..<length (x # xs)])
                 (map Suc [0..<length xs]))"
    by (simp only: list.map concat.simps)
  also have "\<dots> = map (Pair x) xs @ all_pairs xs"
    by (simp only: row others Cons.IH)
  finally show ?case by simp
qed

lemma concat_short: "\<forall>pc \<in> set css. length pc \<le> 1 \<Longrightarrow> length (concat css) \<le> length css"
  by (induction css) auto

lemma inner_loop_Inr:
  "inner_loop d fi rest = Inr raw
   \<Longrightarrow> \<exists>css. list_all2 (\<lambda>p pc. check_pair d (fst p) (snd p) = Inr pc) (map (Pair fi) rest) css
            \<and> raw = concat css"
proof (induction rest arbitrary: raw)
  case Nil
  then show ?case by simp
next
  case (Cons fj rest)
  from Cons.prems obtain pc where pc: "check_pair d fi fj = Inr pc"
    and k: "bind_err (inner_loop d fi rest) (\<lambda>more. Inr (pc @ more)) = Inr raw"
    by (auto dest: bind_err_Inr)
  from k obtain more where more: "inner_loop d fi rest = Inr more" and raw: "raw = pc @ more"
    by (auto dest: bind_err_Inr)
  from Cons.IH [OF more] obtain css where
    "list_all2 (\<lambda>p pc. check_pair d (fst p) (snd p) = Inr pc) (map (Pair fi) rest) css"
    "more = concat css" by blast
  with pc raw have
    "list_all2 (\<lambda>p pc. check_pair d (fst p) (snd p) = Inr pc) (map (Pair fi) (fj # rest)) (pc # css)
     \<and> raw = concat (pc # css)" by simp
  then show ?case by blast
qed

lemma outer_loop_Inr:
  "outer_loop d fs = Inr raw
   \<Longrightarrow> \<exists>css. list_all2 (\<lambda>p pc. check_pair d (fst p) (snd p) = Inr pc) (all_pairs fs) css
            \<and> raw = concat css"
proof (induction fs arbitrary: raw)
  case Nil
  then show ?case by simp
next
  case (Cons fi rest)
  from Cons.prems obtain cs where cs: "inner_loop d fi rest = Inr cs"
    and k: "bind_err (outer_loop d rest) (\<lambda>more. Inr (cs @ more)) = Inr raw"
    by (auto dest: bind_err_Inr)
  from k obtain more where more: "outer_loop d rest = Inr more" and raw: "raw = cs @ more"
    by (auto dest: bind_err_Inr)
  from inner_loop_Inr [OF cs] obtain css1 where
    1: "list_all2 (\<lambda>p pc. check_pair d (fst p) (snd p) = Inr pc) (map (Pair fi) rest) css1"
       "cs = concat css1" by blast
  from Cons.IH [OF more] obtain css2 where
    2: "list_all2 (\<lambda>p pc. check_pair d (fst p) (snd p) = Inr pc) (all_pairs rest) css2"
       "more = concat css2" by blast
  from 1(1) 2(1) have
    "list_all2 (\<lambda>p pc. check_pair d (fst p) (snd p) = Inr pc) (all_pairs (fi # rest)) (css1 @ css2)"
    by (simp add: list_all2_appendI)
  moreover have "raw = concat (css1 @ css2)" using raw 1(2) 2(2) by simp
  ultimately show ?case by blast
qed

lemma check_pair_pair_conflict:
  assumes "check_pair d f1 f2 = Inr pc" and "c \<in> set pc"
  shows "pair_conflict d f1 f2 c"
proof -
  from check_pair_result [OF assms(1)] assms(2)
  obtain tms where tms: "sample_times d f1 f2 (window_start f1 f2) (window_end f1 f2) = Inr tms"
    and ids: "uav1_id c = uav_id f1" "uav2_id c = uav_id f2"
    and t: "time c \<in> set tms"
    and p: "measure_at d f1 f2 (time c) = Inr (Some (distance c, position1 c, position2 c))"
    and m: "distance c = weighted_distance d (position1 c) (position2 c)"
           "distance c < safety_distance d"
    and least: "\<forall>u \<in> set tms. \<forall>m' q. measure_at d f1 f2 u = Inr (Some (m', q))
                  \<longrightarrow> distance c \<le> m'"
    by auto
  from least have low: "list_all (\<lambda>u. case measure_at d f1 f2 u of
                             Inr (Some (m', _)) \<Rightarrow> distance c \<le> m'
                           | _ \<Rightarrow> True) tms"
    by (auto simp: list_all_iff split: sum.splits option.splits)
  from measure_at_span [OF p] have win: "window_start f1 f2 \<le> window_end f1 f2" by simp
  note facts = sample_times_window [OF tms win]
  from facts(2) have inside:
    "list_all (\<lambda>u. window_start f1 f2 \<le> u \<and> u \<le> window_end f1 f2) tms"
    by (simp add: list_all_iff)
  from tms ids t p m low win facts(1) inside facts(3) facts(4) show ?thesis
    by (simp add: pair_conflict_def)
qed

text \<open>
  An example with three plans that fly in [0,2] and three conflicts, two of them at time 0:
  the effective step is 1, the samples are 0, 1 and 2.
\<close>

lemmas trio_defs =
  make_waypoint_def make_plan_def plan_rest_def plan_dip_def plan_leave_def
  wide_detector_def new_detector_def

lemma float_square_below: "\<bar>v\<bar> \<le> 2 ^ 20 \<Longrightarrow> float_square k v = Inr (v\<^sup>2)"
proof -
  assume a: "\<bar>v\<bar> \<le> 2 ^ 20"
  then have "v\<^sup>2 \<le> (2 ^ 20)\<^sup>2" by (metis abs_ge_zero power2_abs power_mono)
  also have "\<dots> < overflow_threshold" by (simp add: overflow_threshold_def)
  finally show ?thesis by (rule float_square_small)
qed

lemma sqrt_examples: "sqrt 100 = 10" "sqrt 400 = 20"
  by (rule real_sqrt_unique; simp)+

lemma speed_rest: "calculate_max_segment_speed wide_detector plan_rest = Inr 15"
  by (simp add: calculate_max_segment_speed_def trio_defs distance_to_def float_square_below
      py_div_def)

lemma speed_dip: "calculate_max_segment_speed wide_detector plan_dip = Inr 15"
  by (simp add: calculate_max_segment_speed_def trio_defs distance_to_def float_square_below
      py_div_def sqrt_examples)

lemma speed_leave: "calculate_max_segment_speed wide_detector plan_leave = Inr 15"
  by (simp add: calculate_max_segment_speed_def trio_defs distance_to_def float_square_below
      py_div_def sqrt_examples)

lemma step_trio:
  "get_effective_time_step wide_detector plan_rest plan_dip = Inr 1"
  "get_effective_time_step wide_detector plan_rest plan_leave = Inr 1"
  "get_effective_time_step wide_detector plan_dip plan_leave = Inr 1"
  by (simp_all add: get_effective_time_step_def speed_rest speed_dip speed_leave py_div_def)
    (simp_all add: trio_defs)

lemma linspace_three: "linspace 0 2 3 = [0, 1, 2]"
  by (simp add: linspace_def upt_conv_Cons)

lemma times_trio:
  "sample_times wide_detector plan_rest plan_dip 0 2 = Inr [0, 1, 2]"
  "sample_times wide_detector plan_rest plan_leave 0 2 = Inr [0, 1, 2]"
  "sample_times wide_detector plan_dip plan_leave 0 2 = Inr [0, 1, 2]"
  by (simp_all add: sample_times_def step_trio py_div_def linspace_three)

lemma positions_trio:
  "interpolate_position plan_rest 0 = Inr (Some ((0, 0, 0), Blended))"
  "interpolate_position plan_rest 1 = Inr (Some ((0, 0, 0), Blended))"
  "interpolate_position plan_rest 2 = Inr (Some ((0, 0, 0), Blended))"
  "interpolate_position plan_dip 0 = Inr (Some ((10, 0, 0), Blended))"
  "interpolate_position plan_dip 1 = Inr (Some ((0, 0, 0), Blended))"
  "interpolate_position plan_dip 2 = Inr (Some ((10, 0, 0), Blended))"
  "interpolate_position plan_leave 0 = Inr (Some ((0, 0, 0), Blended))"
  "interpolate_position plan_leave 1 = Inr (Some ((10, 0, 0), Blended))"
  "interpolate_position plan_leave 2 = Inr (Some ((20, 0, 0), Blended))"
  by (simp_all add: interpolate_position_def trio_defs py_div_def blend_def)

lemma measures_trio:
  "measure_at wide_detector plan_rest plan_dip 0 = Inr (Some (10, (0, 0, 0), (10, 0, 0)))"
  "measure_at wide_detector plan_rest plan_dip 1 = Inr (Some (0, (0, 0, 0), (0, 0, 0)))"
  "measure_at wide_detector plan_rest plan_dip 2 = Inr (Some (10, (0, 0, 0), (10, 0, 0)))"
  "measure_at wide_detector plan_rest plan_leave 0 = Inr (Some (0, (0, 0, 0), (0, 0, 0)))"
  "measure_at wide_detector plan_rest plan_leave 1 = Inr (Some (10, (0, 0, 0), (10, 0, 0)))"
  "measure_at wide_detector plan_rest plan_leave 2 = Inr (Some (20, (0, 0, 0), (20, 0, 0)))"
  "measure_at wide_detector plan_dip plan_leave 0 = Inr (Some (10, (10, 0, 0), (0, 0, 0)))"
  "measure_at wide_detector plan_dip plan_leave 1 = Inr (Some (10, (0, 0, 0), (10, 0, 0)))"
  "measure_at wide_detector plan_dip plan_leave 2 = Inr (Some (10, (10, 0, 0), (20, 0, 0)))"
  by (simp_all add: measure_at_def positions_trio sample_distance_def float_square_numpy
      sqrt_examples)

lemma loops_trio:
  "sample_loop wide_detector plan_rest plan_dip [0, 1, 2] None
     = Inr (Some (0, 1, (0, 0, 0), (0, 0, 0)))"
  "sample_loop wide_detector plan_rest plan_leave [0, 1, 2] None
     = Inr (Some (0, 0, (0, 0, 0), (0, 0, 0)))"
  "sample_loop wide_detector plan_dip plan_leave [0, 1, 2] None
     = Inr (Some (10, 0, (10, 0, 0), (0, 0, 0)))"
  by (simp_all add: sample_loop_Cons measures_trio)

lemma windows_trio:
  "window_start plan_rest plan_dip = 0" "window_end plan_rest plan_dip = 2"
  "window_start plan_rest plan_leave = 0" "window_end plan_rest plan_leave = 2"
  "window_start plan_dip plan_leave = 0" "window_end plan_dip plan_leave = 2"
  by (simp_all add: window_start_def window_end_def trio_defs)

lemma check_pair_rest_dip:
  "check_pair wide_detector plan_rest plan_dip = Inr [conflict_rest_dip]"
proof -
  have "check_pair wide_detector plan_rest plan_dip =
     bind_err (sample_times wide_detector plan_rest plan_dip
                 (window_start plan_rest plan_dip) (window_end plan_rest plan_dip)) (\<lambda>tms.
     bind_err (sample_loop wide_detector plan_rest plan_dip tms None) (\<lambda>best.
       case best of
         None \<Rightarrow> Inr []
       | Some (m, t, p1, p2) \<Rightarrow>
           if m < safety_distance wide_detector then
             bind_err (severity_of m (safety_distance wide_detector)) (\<lambda>sev.
               Inr [\<lparr>uav1_id = uav_id plan_rest, uav2_id = uav_id plan_dip, time = t,
                     position1 = p1, position2 = p2, distance = m, severity = sev\<rparr>])
           else Inr []))"
    by (rule check_pair_overlap) (simp_all add: windows_trio, simp_all add: trio_defs)
  then show ?thesis
    by (simp add: windows_trio times_trio loops_trio severity_of_def py_div_def
        conflict_rest_dip_def, simp add: trio_defs)
qed

lemma check_pair_rest_leave:
  "check_pair wide_detector plan_rest plan_leave = Inr [conflict_rest_leave]"
proof -
  have "check_pair wide_detector plan_rest plan_leave =
     bind_err (sample_times wide_detector plan_rest plan_leave
                 (window_start plan_rest plan_leave) (window_end plan_rest plan_leave)) (\<lambda>tms.
     bind_err (sample_loop wide_detector plan_rest plan_leave tms None) (\<lambda>best.
       case best of
         None \<Rightarrow> Inr []
       | Some (m, t, p1, p2) \<Rightarrow>
           if m < safety_distance wide_detector then
             bind_err (severity_of m (safety_distance wide_detector)) (\<lambda>sev.
               Inr [\<lparr>uav1_id = uav_id plan_rest, uav2_id = uav_id plan_leave, time = t,
                     position1 = p1, position2 = p2, distance = m, severity = sev\<rparr>])
           else Inr []))"
    by (rule check_pair_overlap) (simp_all add: windows_trio, simp_all add: trio_defs)
  then show ?thesis
    by (simp add: windows_trio times_trio loops_trio severity_of_def py_div_def
        conflict_rest_leave_def, simp add: trio_defs)
qed

lemma check_pair_dip_leave:
  "check_pair wide_detector plan_dip plan_leave = Inr [conflict_dip_leave]"
proof -
  have "check_pair wide_detector plan_dip plan_leave =
     bind_err (sample_times wide_detector plan_dip plan_leave
                 (window_start plan_dip plan_leave) (window_end plan_dip plan_leave)) (\<lambda>tms.
     bind_err (sample_loop wide_detector plan_dip plan_leave tms None) (\<lambda>best.
       case best of
         None \<Rightarrow> Inr []
       | Some (m, t, p1, p2) \<Rightarrow>
           if m < safety_distance wide_detector then
             bind_err (severity_of m (safety_distance wide_detector)) (\<lambda>sev.
               Inr [\<lparr>uav1_id = uav_id plan_dip, uav2_id = uav_id plan_leave, time = t,
                     position1 = p1, position2 = p2, distance = m, severity = sev\<rparr>])
           else Inr []))"
    by (rule check_pair_overlap) (simp_all add: windows_trio, simp_all add: trio_defs)
  then show ?thesis
    by (simp add: windows_trio times_trio loops_trio severity_of_def py_div_def
        conflict_dip_leave_def, simp add: trio_defs)
qed

text \<open>
  C1: the list that \<open>find_conflicts\<close> returns. The pairs \<open>(flights[i], flights[j])\<close>,
  \<open>i < j\<close>, are each checked once, and each contributes at most one conflict: the one at
  the sample of its overlap window with the least measured distance, the samples
  ascending from the start of the window to its end. The result is the concatenation of these
  contributions sorted by time in ascending order, and conflicts of equal time keep the
  order of the concatenation.
\<close>

theorem find_conflicts_one_per_pair_sorted:
  assumes "find_conflicts d flights = Inr cs"
  shows "\<exists>css.
        list_all2 (\<lambda>p pc. check_pair d (fst p) (snd p) = Inr pc \<and> length pc \<le> 1
                           \<and> (\<forall>c \<in> set pc. pair_conflict d (fst p) (snd p) c))
           (all_pairs flights) css
      \<and> all_pairs flights
          = concat (map (\<lambda>i. map (\<lambda>j. (flights ! i, flights ! j)) [Suc i..<length flights])
                      [0..<length flights])
      \<and> cs = sort_key time (concat css)
      \<and> mset cs = mset (concat css)
      \<and> sorted (map time cs)
      \<and> (\<forall>k. filter (\<lambda>c. time c = k) cs = filter (\<lambda>c. time c = k) (concat css))
      \<and> length cs \<le> length flights * (length flights - 1) div 2"
proof -
  from assms obtain raw where raw: "outer_loop d flights = Inr raw"
    and cs: "cs = sort_key time raw"
    by (auto simp: find_conflicts_def dest!: bind_err_Inr)
  from outer_loop_Inr [OF raw] obtain css where
    css: "list_all2 (\<lambda>p pc. check_pair d (fst p) (snd p) = Inr pc) (all_pairs flights) css"
    and concat: "raw = concat css" by blast
  let ?P = "\<lambda>p pc. check_pair d (fst p) (snd p) = Inr pc \<and> length pc \<le> 1
                           \<and> (\<forall>c \<in> set pc. pair_conflict d (fst p) (snd p) c)"
  have strong: "list_all2 ?P (all_pairs flights) css"
    using css
  proof (rule list_all2_mono)
    fix p pc
    assume "check_pair d (fst p) (snd p) = Inr pc"
    then show "?P p pc"
      using check_pair_length check_pair_pair_conflict by blast
  qed
  have short: "\<forall>pc \<in> set css. length pc \<le> 1"
  proof
    fix pc assume "pc \<in> set css"
    then obtain n where n: "n < length css" "css ! n = pc" by (auto simp: in_set_conv_nth)
    from list_all2_nthD2 [OF strong n(1)] n(2) show "length pc \<le> 1" by simp
  qed
  have cs_def: "cs = sort_key time (concat css)" using cs concat by simp
  have "length cs = length (concat css)" by (simp add: cs_def)
  also have "\<dots> \<le> length css" using short by (rule concat_short)
  also have "\<dots> = length (all_pairs flights)"
    using css by (simp add: list_all2_lengthD)
  also have "\<dots> = length flights * (length flights - 1) div 2" by (rule all_pairs_length)
  finally have len: "length cs \<le> length flights * (length flights - 1) div 2" .
  have perm: "mset cs = mset (concat css)" by (simp add: cs_def)
  have sorted: "sorted (map time cs)" by (simp add: cs_def)
  have stable: "\<forall>k. filter (\<lambda>c. time c = k) cs = filter (\<lambda>c. time c = k) (concat css)"
    by (simp add: cs_def sort_key_stable)
  from strong all_pairs_nth [of flights] cs_def perm sorted stable len
  show ?thesis by blast
qed

theorem find_conflicts_one_per_pair_sorted_witness:
  "find_conflicts wide_detector [plan_rest, plan_dip, plan_leave]
     = Inr [conflict_rest_leave, conflict_dip_leave, conflict_rest_dip]
   \<and> concat [[conflict_rest_dip], [conflict_rest_leave], [conflict_dip_leave]]
       = [conflict_rest_dip, conflict_rest_leave, conflict_dip_leave]
   \<and> map time [conflict_rest_leave, conflict_dip_leave, conflict_rest_dip] = [0, 0, 1]
   \<and> check_pair wide_detector plan_rest plan_dip = Inr [conflict_rest_dip]
   \<and> check_pair wide_detector plan_rest plan_leave = Inr [conflict_rest_leave]
   \<and> check_pair wide_detector plan_dip plan_leave = Inr [conflict_dip_leave]
   \<and> pair_conflict wide_detector plan_rest plan_dip conflict_rest_dip
   \<and> pair_conflict wide_detector plan_rest plan_leave conflict_rest_leave
   \<and> pair_conflict wide_detector plan_dip plan_leave conflict_dip_leave
   \<and> sample_times wide_detector plan_dip plan_leave
         (window_start plan_dip plan_leave) (window_end plan_dip plan_leave) = Inr [0, 1, 2]
   \<and> measure_at wide_detector plan_dip plan_leave 1 = Inr (Some (10, (0, 0, 0), (10, 0, 0)))"
proof -
  have run: "find_conflicts wide_detector [plan_rest, plan_dip, plan_leave]
     = Inr [conflict_rest_leave, conflict_dip_leave, conflict_rest_dip]"
    by (simp add: find_conflicts_def check_pair_rest_dip check_pair_rest_leave
        check_pair_dip_leave)
      (simp add: conflict_rest_dip_def conflict_rest_leave_def conflict_dip_leave_def)
  from find_conflicts_one_per_pair_sorted [OF run] obtain css where
    "list_all2 (\<lambda>p pc. check_pair wide_detector (fst p) (snd p) = Inr pc \<and> length pc \<le> 1
                   \<and> (\<forall>c \<in> set pc. pair_conflict wide_detector (fst p) (snd p) c))
       (all_pairs [plan_rest, plan_dip, plan_leave]) css"
    by blast
  then have "pair_conflict wide_detector plan_rest plan_dip conflict_rest_dip
   \<and> pair_conflict wide_detector plan_rest plan_leave conflict_rest_leave
   \<and> pair_conflict wide_detector plan_dip plan_leave conflict_dip_leave"
    by (auto simp: list_all2_Cons1 check_pair_rest_dip check_pair_rest_leave
        check_pair_dip_leave)
  with run show ?thesis
    by (simp add: check_pair_rest_dip check_pair_rest_leave check_pair_dip_leave
        windows_trio times_trio measures_trio)
      (simp add: conflict_rest_dip_def conflict_rest_leave_def conflict_dip_leave_def)
qed

section \<open>The verification service\<close>

lemmas far_defs =
  make_waypoint_def make_plan_def plan_zero_def plan_far_def plan_far_hold_def
  far_service_def far_hold_service_def new_service_def new_detector_def

lemma far_x_facts:
  "0 < far_x" "10 \<le> far_x" "\<bar>0 - far_x\<bar> < overflow_threshold"
  "overflow_threshold \<le> (0 - far_x)\<^sup>2"
  by (simp_all add: far_x_def overflow_threshold_def)

lemma sample_distance_stored_overflow:
  assumes "\<bar>x1 - x2\<bar> < overflow_threshold" and "overflow_threshold \<le> (x1 - x2)\<^sup>2"
  shows "sample_distance d ((x1, y1, z1), Stored) ((x2, y2, z2), Stored) = Inl OverflowError"
  using assms by (simp add: sample_distance_def float_square_def)

lemma sample_distance_zero_far:
  "sample_distance d ((0, 0, 0), Stored) ((far_x, 0, 0), Stored) = Inl OverflowError"
  by (rule sample_distance_stored_overflow) (rule far_x_facts)+

lemma check_pair_zero_far:
  "check_pair (detector far_service) plan_zero plan_far = Inl OverflowError"
  by (simp add: check_pair_def far_defs sample_times_def sample_loop.simps
      interpolate_position_def position_of_def sample_distance_zero_far)

lemma check_pair_zero_far_hold:
  "check_pair (detector far_hold_service) plan_zero plan_far_hold = Inr []"
  using far_x_facts(1,2)
  by (simp add: check_pair_def far_defs sample_times_def sample_loop.simps
      interpolate_position_def position_of_def blend_def py_div_def
      sample_distance_def float_square_numpy)

text \<open>
  C6: \<open>verify_mission\<close> on the primary mission \<open>plan_zero\<close> and the registered schedule
  \<open>plan_far\<close>, two constructed plans. Both positions at the only sample time 0 are the
  stored coordinates of a zero-duration segment, the square of their difference
  \<open>2^600\<close> does not fit a double, and the call raises \<open>OverflowError\<close> instead of
  returning a status. Against \<open>plan_far_hold\<close>, which is at the same place but
  interpolates its position, the same computation returns \<open>CLEAR\<close>.
\<close>

theorem verify_mission_raises_overflow:
  "post_init plan_zero = Inr plan_zero \<and> post_init plan_far = Inr plan_far
   \<and> post_init plan_far_hold = Inr plan_far_hold
   \<and> simulated_schedules far_service = [plan_far]
   \<and> simulated_schedules far_hold_service = [plan_far_hold]
   \<and> fst (verify_mission far_service plan_zero verbose) = Inl OverflowError
   \<and> map_sum id status (fst (verify_mission far_hold_service plan_zero verbose)) = Inr ''CLEAR''"
proof -
  have valid: "post_init plan_zero = Inr plan_zero" "post_init plan_far = Inr plan_far"
    "post_init plan_far_hold = Inr plan_far_hold"
    by (simp_all add: post_init_def far_defs)
  have ss: "simulated_schedules far_service = [plan_far]"
    "simulated_schedules far_hold_service = [plan_far_hold]"
    by (simp_all add: far_defs)
  have raise: "fst (verify_mission far_service plan_zero verbose) = Inl OverflowError"
    by (simp add: verify_mission_def Let_def ss find_conflicts_two_eq check_pair_zero_far)
  have clear: "map_sum id status (fst (verify_mission far_hold_service plan_zero verbose))
                 = Inr ''CLEAR''"
    by (simp add: verify_mission_def Let_def ss find_conflicts_two_eq
        check_pair_zero_far_hold)
  from valid ss raise clear show ?thesis by simp
qed

section \<open>Continuous conflict\<close>

text \<open>One turn of the loop, in terms of what is measured at the sample time.\<close>

lemma continuous_loop_Cons:
  "continuous_loop d f1 f2 (u # us) =
     bind_err (measure_at d f1 f2 u) (\<lambda>r.
       case r of
         None \<Rightarrow> Inr False
       | Some (m, _) \<Rightarrow>
           if m \<ge> safety_distance d then Inr False else continuous_loop d f1 f2 us)"
proof (cases "interpolate_position f1 u")
  case (Inl e)
  then show ?thesis by (simp add: measure_at_def)
next
  case one: (Inr o1)
  show ?thesis
  proof (cases "interpolate_position f2 u")
    case (Inl e)
    with one show ?thesis by (simp add: measure_at_def)
  next
    case two: (Inr o2)
    show ?thesis
    proof (cases "o1 = None \<or> o2 = None")
      case True
      with one two show ?thesis by (auto simp: measure_at_def split: option.splits)
    next
      case False
      then obtain r1 r2 where r: "o1 = Some r1" "o2 = Some r2" by auto
      show ?thesis
        using one two r
        by (cases "sample_distance d r1 r2") (simp_all add: measure_at_def)
    qed
  qed
qed

declare continuous_loop.simps(2) [simp del]

lemma continuous_loop_result:
  "continuous_loop d f1 f2 ts = Inr r \<Longrightarrow> r = (\<forall>t \<in> set ts. below_at d f1 f2 t)"
proof (induction ts)
  case Nil
  then show ?case by auto
next
  case (Cons u us)
  show ?case
  proof (cases "measure_at d f1 f2 u")
    case (Inl e)
    with Cons.prems show ?thesis by (simp add: continuous_loop_Cons)
  next
    case (Inr res)
    show ?thesis
    proof (cases res)
      case None
      with Inr Cons.prems show ?thesis by (simp add: continuous_loop_Cons below_at_def)
    next
      case (Some triple)
      obtain m q where t: "triple = (m, q)" by (cases triple) auto
      show ?thesis
      proof (cases "m \<ge> safety_distance d")
        case True
        with Inr Some t Cons.prems show ?thesis
          by (simp add: continuous_loop_Cons below_at_def)
      next
        case False
        with Inr Some t Cons.prems have "continuous_loop d f1 f2 us = Inr r"
          by (simp add: continuous_loop_Cons)
        from Cons.IH [OF this] Inr Some t False show ?thesis by (simp add: below_at_def)
      qed
    qed
  qed
qed

lemma continuous_loop_returns:
  "\<forall>t \<in> set ts. \<exists>res. measure_at d f1 f2 t = Inr res
   \<Longrightarrow> continuous_loop d f1 f2 ts = Inr (\<forall>t \<in> set ts. below_at d f1 f2 t)"
proof (induction ts)
  case Nil
  show ?case by simp
next
  case (Cons u us)
  from Cons.prems obtain res where res: "measure_at d f1 f2 u = Inr res" by auto
  from Cons have IH: "continuous_loop d f1 f2 us = Inr (\<forall>t \<in> set us. below_at d f1 f2 t)"
    by simp
  show ?case
  proof (cases res)
    case None
    with res show ?thesis by (simp add: continuous_loop_Cons below_at_def)
  next
    case (Some triple)
    obtain m q where t: "triple = (m, q)" by (cases triple) auto
    with res Some IH show ?thesis
      by (simp add: continuous_loop_Cons below_at_def not_le)
  qed
qed

lemmas pair_defs =
  make_waypoint_def make_plan_def plan_early_def plan_away_def unit_detector_def
  new_detector_def

lemma interpolate_early_away:
  "interpolate_position plan_early 0 = Inr (Some ((0, 0, 0), Blended))"
  "interpolate_position plan_away 0 = Inr (Some ((0, 0, 0), Blended))"
  "interpolate_position plan_early 1 = Inr (Some ((0, 0, 0), Blended))"
  "interpolate_position plan_away 1 = Inr (Some ((1, 0, 0), Blended))"
  by (simp_all add: interpolate_position_def pair_defs py_div_def blend_def)

lemma unit_detector_fields:
  "time_step unit_detector = 1" "safety_distance unit_detector = 1"
  "vertical_weight unit_detector = 3 / 2"
  by (simp_all add: unit_detector_def new_detector_def)

lemma measure_early_away:
  "measure_at unit_detector plan_early plan_away 0 = Inr (Some (0, (0, 0, 0), (0, 0, 0)))"
  "measure_at unit_detector plan_early plan_away 1 = Inr (Some (1, (0, 0, 0), (1, 0, 0)))"
  by (simp_all add: measure_at_def interpolate_early_away sample_distance_def
      float_square_numpy)

lemma below_at_examples:
  "below_at unit_detector plan_early plan_away 0"
  "\<not> below_at unit_detector plan_early plan_away 1"
  by (simp_all add: below_at_def measure_early_away unit_detector_fields)

lemma exact_arange_examples:
  "exact_arange 0 1 1 = Inr [0]" "exact_arange 0 2 1 = Inr [0, 1]"
  by (simp_all add: exact_arange_def upt_conv_Cons)

lemma check_continuous_conflict_example:
  "check_continuous_conflict exact_arange unit_detector plan_early plan_away 0 1 = Inr True"
  "check_continuous_conflict exact_arange unit_detector plan_early plan_away 0 2 = Inr False"
  by (simp_all add: check_continuous_conflict_def unit_detector_fields exact_arange_examples
      continuous_loop_Cons measure_early_away)

text \<open>
  C7, as amended: let \<open>ts\<close> be the samples that \<open>numpy.arange(start, end, time_step)\<close>
  yields. When \<open>check_continuous_conflict(A, B, start, end)\<close> returns, it returns true if and
  only if at every sample of \<open>ts\<close> both plans have a position and the distance measured
  there is strictly below the safety distance; and it returns when the measurement raises
  at no sample of \<open>ts\<close>. Nothing makes \<open>end\<close> one of the samples.
\<close>

theorem check_continuous_conflict_samples:
  assumes "np_arange a b (time_step d) = Inr ts"
  shows "(check_continuous_conflict np_arange d f1 f2 a b = Inr r
            \<longrightarrow> (r \<longleftrightarrow> (\<forall>t \<in> set ts. below_at d f1 f2 t)))
       \<and> ((\<forall>t \<in> set ts. \<exists>res. measure_at d f1 f2 t = Inr res)
            \<longrightarrow> check_continuous_conflict np_arange d f1 f2 a b
                  = Inr (\<forall>t \<in> set ts. below_at d f1 f2 t))"
proof (intro conjI impI)
  assume "check_continuous_conflict np_arange d f1 f2 a b = Inr r"
  then have "continuous_loop d f1 f2 ts = Inr r"
    by (simp add: check_continuous_conflict_def assms)
  then show "r \<longleftrightarrow> (\<forall>t \<in> set ts. below_at d f1 f2 t)"
    by (rule continuous_loop_result)
next
  assume "\<forall>t \<in> set ts. \<exists>res. measure_at d f1 f2 t = Inr res"
  then have "continuous_loop d f1 f2 ts = Inr (\<forall>t \<in> set ts. below_at d f1 f2 t)"
    by (rule continuous_loop_returns)
  then show "check_continuous_conflict np_arange d f1 f2 a b
               = Inr (\<forall>t \<in> set ts. below_at d f1 f2 t)"
    by (simp add: check_continuous_conflict_def assms)
qed

theorem check_continuous_conflict_samples_witness:
  "exact_arange 0 2 (time_step unit_detector) = Inr [0, 1]
   \<and> check_continuous_conflict exact_arange unit_detector plan_early plan_away 0 2 = Inr False
   \<and> measure_at unit_detector plan_early plan_away 0 = Inr (Some (0, (0, 0, 0), (0, 0, 0)))
   \<and> measure_at unit_detector plan_early plan_away 1 = Inr (Some (1, (0, 0, 0), (1, 0, 0)))
   \<and> \<not> (\<forall>t \<in> set [0, 1]. below_at unit_detector plan_early plan_away t)"
proof -
  have ts: "exact_arange 0 2 (time_step unit_detector) = Inr [0, 1]"
    by (simp add: unit_detector_fields exact_arange_examples)
  from check_continuous_conflict_samples
         [of exact_arange 0 2 unit_detector "[0, 1]" plan_early plan_away False]
    ts check_continuous_conflict_example(2)
  have "\<not> (\<forall>t \<in> set [0, 1]. below_at unit_detector plan_early plan_away t)"
    by blast
  with ts check_continuous_conflict_example(2) measure_early_away show ?thesis by simp
qed

text \<open>
  C7 as stated fails when \<open>end\<close> is itself a point of the grid: \<open>numpy.arange(0, 1, 1)\<close> is
  \<open>[0]\<close>, so on the window [0,1] with step 1 the time \<open>0 + 1 * 1 = 1\<close> is not sampled.
  Both plans have a position there, the distance 1 measured there is not below the safety
  distance 1, and the call returns true.
\<close>

theorem check_continuous_conflict_end_counterexample:
  "exact_arange 0 1 (time_step unit_detector) = Inr [0]
   \<and> check_continuous_conflict exact_arange unit_detector plan_early plan_away 0 1 = Inr True
   \<and> (0::real) + real 1 * time_step unit_detector = 1
   \<and> measure_at unit_detector plan_early plan_away 1 = Inr (Some (1, (0, 0, 0), (1, 0, 0)))
   \<and> safety_distance unit_detector = 1
   \<and> \<not> below_at unit_detector plan_early plan_away 1"
  by (simp add: check_continuous_conflict_example measure_early_away below_at_examples
      unit_detector_fields exact_arange_examples)

section \<open>Statistics\<close>

lemma np_min_Min: "xs \<noteq> [] \<Longrightarrow> np_min xs = Min (set xs)"
  by (cases xs) (simp_all add: np_min_def Min.set_eq_fold [symmetric])

lemma np_max_Max: "xs \<noteq> [] \<Longrightarrow> np_max xs = Max (set xs)"
  by (cases xs) (simp_all add: np_max_def Max.set_eq_fold [symmetric])

text \<open>
  C8, as amended: for a non-empty list of conflicts \<open>get_statistics\<close> returns the number
  of conflicts, the mean, minimum and maximum of their distances, the mean and maximum of
  their severities, and the number of conflicts with severity strictly greater than 0.8;
  it returns no minimum severity. For the empty list it returns the count 0 and 0.0 for
  the mean and minimum distance and for the mean and maximum severity.
\<close>

theorem get_statistics_entries:
  "(cs \<noteq> [] \<longrightarrow>
      map_of (get_statistics cs) ''total_conflicts'' = Some (IntStat (int (length cs)))
    \<and> map_of (get_statistics cs) ''avg_distance''
        = Some (FloatStat (sum_list (map distance cs) / real (length cs)))
    \<and> map_of (get_statistics cs) ''min_distance''
        = Some (FloatStat (Min (distance ` set cs)))
    \<and> map_of (get_statistics cs) ''max_distance''
        = Some (FloatStat (Max (distance ` set cs)))
    \<and> map_of (get_statistics cs) ''avg_severity''
        = Some (FloatStat (sum_list (map severity cs) / real (length cs)))
    \<and> map_of (get_statistics cs) ''max_severity''
        = Some (FloatStat (Max (severity ` set cs)))
    \<and> map_of (get_statistics cs) ''critical_conflicts''
        = Some (IntStat (int (length (filter (\<lambda>c. severity c > 4 / 5) cs))))
    \<and> map_of (get_statistics cs) ''min_severity'' = None)
   \<and> map_of (get_statistics []) ''total_conflicts'' = Some (IntStat 0)
   \<and> map_of (get_statistics []) ''avg_distance'' = Some (FloatStat 0)
   \<and> map_of (get_statistics []) ''min_distance'' = Some (FloatStat 0)
   \<and> map_of (get_statistics []) ''avg_severity'' = Some (FloatStat 0)
   \<and> map_of (get_statistics []) ''max_severity'' = Some (FloatStat 0)"
proof (intro conjI impI)
  assume ne: "cs \<noteq> []"
  then have d: "map distance cs \<noteq> []" and s: "map severity cs \<noteq> []"
    by simp_all
  note unfold = get_statistics_def Let_def np_mean_def np_min_Min [OF d] np_max_Max [OF d]
    np_max_Max [OF s]
  show "map_of (get_statistics cs) ''total_conflicts''
          = Some (IntStat (int (length cs)))"
    using ne by (simp add: unfold)
  show "map_of (get_statistics cs) ''avg_distance''
        = Some (FloatStat (sum_list (map distance cs) / real (length cs)))"
    using ne by (simp add: unfold)
  show "map_of (get_statistics cs) ''min_distance''
        = Some (FloatStat (Min (distance ` set cs)))"
    using ne by (simp add: unfold)
  show "map_of (get_statistics cs) ''max_distance''
        = Some (FloatStat (Max (distance ` set cs)))"
    using ne by (simp add: unfold)
  show "map_of (get_statistics cs) ''avg_severity''
        = Some (FloatStat (sum_list (map severity cs) / real (length cs)))"
    using ne by (simp add: unfold)
  show "map_of (get_statistics cs) ''max_severity''
        = Some (FloatStat (Max (severity ` set cs)))"
    using ne by (simp add: unfold)
  show "map_of (get_statistics cs) ''critical_conflicts''
        = Some (IntStat (int (length (filter (\<lambda>c. severity c > 4 / 5) cs))))"
    using ne by (simp add: get_statistics_def Let_def filter_map comp_def)
  show "map_of (get_statistics cs) ''min_severity'' = None"
    using ne by (simp add: get_statistics_def Let_def)
qed (simp_all add: get_statistics_def)

lemma get_statistics_example:
  "get_statistics [conflict_at_handover, conflict_near] =
     [(''total_conflicts'', IntStat 2),
      (''avg_distance'', FloatStat (5 / 2)),
      (''min_distance'', FloatStat 0),
      (''max_distance'', FloatStat 5),
      (''avg_severity'', FloatStat (3 / 4)),
      (''max_severity'', FloatStat 1),
      (''critical_conflicts'', IntStat 1)]"
  by (simp add: get_statistics_def Let_def np_mean_def np_min_def np_max_def
      conflict_at_handover_def conflict_near_def)

theorem get_statistics_entries_witness:
  "[conflict_at_handover, conflict_near] \<noteq> []
   \<and> map_of (get_statistics [conflict_at_handover, conflict_near]) ''min_distance''
       = Some (FloatStat 0)
   \<and> map_of (get_statistics [conflict_at_handover, conflict_near]) ''max_severity''
       = Some (FloatStat 1)
   \<and> map_of (get_statistics [conflict_at_handover, conflict_near]) ''critical_conflicts''
       = Some (IntStat 1)"
  using get_statistics_entries [of "[conflict_at_handover, conflict_near]"]
  by (simp add: conflict_at_handover_def conflict_near_def)

text \<open>
  C8 as stated fails: for the two conflicts of severities 1 and 1/2 the minimum of the
  severities is 1/2, and the returned dict has no entry for it: none of its values is
  1/2 and there is no key \<open>min_severity\<close>.
\<close>

theorem get_statistics_min_severity_counterexample:
  "get_statistics [conflict_at_handover, conflict_near] =
     [(''total_conflicts'', IntStat 2),
      (''avg_distance'', FloatStat (5 / 2)),
      (''min_distance'', FloatStat 0),
      (''max_distance'', FloatStat 5),
      (''avg_severity'', FloatStat (3 / 4)),
      (''max_severity'', FloatStat 1),
      (''critical_conflicts'', IntStat 1)]
   \<and> Min (severity ` set [conflict_at_handover, conflict_near]) = 1 / 2
   \<and> map_of (get_statistics [conflict_at_handover, conflict_near]) ''min_severity'' = None
   \<and> FloatStat (1 / 2) \<notin> snd ` set (get_statistics [conflict_at_handover, conflict_near])"
  by (simp add: get_statistics_example) (simp add: conflict_at_handover_def conflict_near_def)

end
